theory Spec2Isabelle
  imports Complex_Main
begin

section \<open>The Go environment of \<open>estimator/trainer/game/go.py\<close>\<close>

text \<open>
  The module wraps a board engine (\<open>pachi_py\<close>) that is not part of the repository.
  The engine is a parameter of every definition below: a record of the operations the
  module calls on it. Nothing is assumed about the engine except where a theorem
  says so in its hypotheses.
\<close>

subsection \<open>Data\<close>

text \<open>\<open>HISTORY = 8\<close>\<close>

definition HISTORY :: nat where
  "HISTORY = 8"

text \<open>
  The two stone colours of \<open>colormap\<close>. The source stores them as the integers
  \<open>pachi_py.BLACK = 1\<close> and \<open>pachi_py.WHITE = 2\<close> (its own comments give the values);
  \<open>stone_val\<close> is that integer. The field \<open>player_color\<close> only ever holds a value of
  \<open>colormap\<close> or \<open>stone_other\<close> of one.
\<close>

datatype stone = BLACK | WHITE

fun stone_val :: "stone \<Rightarrow> int" where
  "stone_val BLACK = 1"
| "stone_val WHITE = 2"

fun stone_other :: "stone \<Rightarrow> stone" where
  "stone_other BLACK = WHITE"
| "stone_other WHITE = BLACK"

text \<open>The exceptions that the module's code can raise or let through.\<close>

datatype error = IllegalMove | ZeroDivisionError | KeyError

text \<open>
  A numpy array of three axes is a nested list indexed \<open>[row][column][plane]\<close>, as
  \<open>history\<close> and \<open>state\<close> are in the source (the plane index is the last axis). A
  nested list is such an array only when it is rectangular (\<open>shape3\<close>). Cells are
  \<open>int\<close>. \<open>history\<close> has the element type \<open>int8\<close>, and an assignment into it stores
  \<open>int8\<close> of the value assigned: the value wrapped into the range from \<open>-128\<close> to 127.
  \<open>np.roll\<close> keeps the entries of \<open>history\<close> and \<open>np.concatenate\<close> widens them to the
  integer type of the colour plane, so neither changes a value.
\<close>

type_synonym plane = "int list list"
type_synonym ndarray = "int list list list"

definition shape2 :: "nat \<Rightarrow> nat \<Rightarrow> plane \<Rightarrow> bool" where
  "shape2 n m p = (length p = n \<and> (\<forall>row \<in> set p. length row = m))"

definition shape3 :: "nat \<Rightarrow> nat \<Rightarrow> nat \<Rightarrow> ndarray \<Rightarrow> bool" where
  "shape3 n m d a =
     (length a = n \<and> (\<forall>row \<in> set a. length row = m \<and> (\<forall>cell \<in> set row. length cell = d)))"

text \<open>\<open>a[:, :, k]\<close>\<close>

definition plane_at :: "nat \<Rightarrow> ndarray \<Rightarrow> plane" where
  "plane_at k a = map (map (\<lambda>cell. cell ! k)) a"

text \<open>
  The board engine. \<open>'b\<close> is the engine's board (a \<open>PachiBoardPtr\<close>); a native
  coordinate is an \<open>int\<close>. \<open>play\<close> returns the new board, or \<open>None\<close> where the engine
  raises \<open>pachi_py.IllegalMove\<close>. \<open>encode\<close> returns the planes of the position, the
  plane of black at index 0 and of white at index 1. The score is a multiple of one
  half, kept exact as a rational.
\<close>

record 'b engine =
  PASS_COORD :: int
  RESIGN_COORD :: int
  CreateBoard :: "nat \<Rightarrow> 'b"
  bsize :: "'b \<Rightarrow> nat"
  coord_to_ij :: "'b \<Rightarrow> int \<Rightarrow> int \<times> int"
  ij_to_coord :: "'b \<Rightarrow> int \<Rightarrow> int \<Rightarrow> int"
  play :: "'b \<Rightarrow> int \<Rightarrow> stone \<Rightarrow> 'b option"
  clone :: "'b \<Rightarrow> 'b"
  encode :: "'b \<Rightarrow> plane list"
  is_terminal :: "'b \<Rightarrow> bool"
  official_score :: "'b \<Rightarrow> rat"
  get_legal_coords :: "'b \<Rightarrow> stone \<Rightarrow> bool \<Rightarrow> int list"

text \<open>
  The attributes of a \<open>GoGame\<close> instance. \<open>done\<close> is \<open>done_flag\<close> here (\<open>done\<close> is a
  keyword of Isabelle).
\<close>

record 'b GoGame =
  board_size :: nat
  player_color :: stone
  komi :: rat
  board :: 'b
  done_flag :: bool
  history :: ndarray
  state :: ndarray

subsection \<open>The action codec\<close>

definition pass_action :: "nat \<Rightarrow> int" where
  "pass_action n = int n ^ 2"

definition resign_action :: "nat \<Rightarrow> int" where
  "resign_action n = int n ^ 2 + 1"

definition coord_to_action :: "'b engine \<Rightarrow> 'b \<Rightarrow> int \<Rightarrow> int" where
  "coord_to_action e b c =
     (if c = PASS_COORD e then pass_action (bsize e b)
      else if c = RESIGN_COORD e then resign_action (bsize e b)
      else (case coord_to_ij e b c of (i, j) \<Rightarrow> i * int (bsize e b) + j))"

text \<open>
  \<open>a // board.size\<close> and \<open>a % board.size\<close> round toward minus infinity, as \<open>div\<close> and
  \<open>mod\<close> on \<open>int\<close> do, and raise \<open>ZeroDivisionError\<close> on a board of size 0.
\<close>

definition action_to_coord :: "'b engine \<Rightarrow> 'b \<Rightarrow> int \<Rightarrow> error + int" where
  "action_to_coord e b a =
     (if a = pass_action (bsize e b) then Inr (PASS_COORD e)
      else if a = resign_action (bsize e b) then Inr (RESIGN_COORD e)
      else if bsize e b = 0 then Inl ZeroDivisionError
      else Inr (ij_to_coord e b (a div int (bsize e b)) (a mod int (bsize e b))))"

subsection \<open>numpy operations\<close>

text \<open>\<open>np.zeros((n, m, d))\<close> and \<open>np.full((n, m, d), v)\<close>\<close>

definition np_full :: "nat \<Rightarrow> nat \<Rightarrow> nat \<Rightarrow> int \<Rightarrow> ndarray" where
  "np_full n m d v = replicate n (replicate m (replicate d v))"

definition np_zeros :: "nat \<Rightarrow> nat \<Rightarrow> nat \<Rightarrow> ndarray" where
  "np_zeros n m d = np_full n m d 0"

text \<open>
  \<open>np.concatenate((a, b), axis=-1)\<close>: cell by cell. numpy raises \<open>ValueError\<close> unless
  the two arrays agree on the first two axes; the environment only calls it on a
  history and a colour plane built for the same board size.
\<close>

definition np_concatenate_last :: "ndarray \<Rightarrow> ndarray \<Rightarrow> ndarray" where
  "np_concatenate_last a b = map2 (map2 (@)) a b"

text \<open>\<open>np.roll(a, 1, axis=-1)\<close>: in every cell the last entry moves to the front.\<close>

definition roll1 :: "'a list \<Rightarrow> 'a list" where
  "roll1 xs = (if xs = [] then [] else last xs # butlast xs)"

definition np_roll_last :: "ndarray \<Rightarrow> ndarray" where
  "np_roll_last a = map (map roll1) a"

text \<open>The cast of a value to \<open>int8\<close>, as numpy does it when it assigns into an array.\<close>

definition int8 :: "int \<Rightarrow> int" where
  "int8 v = (v + 128) mod 256 - 128"

text \<open>
  \<open>a[:, :, 0] = p\<close> for an array \<open>a\<close> of element type \<open>int8\<close>: an assignment in place,
  which never changes the shape of \<open>a\<close>. It writes \<open>p[i][j]\<close>, cast to \<open>int8\<close>, into
  entry 0 of cell \<open>(i, j)\<close>; \<open>p\<close> has the shape of a plane of \<open>a\<close> when it is a plane of
  the engine's encoding of a board of that size.
\<close>

definition assign_plane0 :: "ndarray \<Rightarrow> plane \<Rightarrow> ndarray" where
  "assign_plane0 a p =
     map (\<lambda>i. map (\<lambda>j. (a ! i ! j)[0 := int8 (p ! i ! j)]) [0..<length (a ! i)])
       [0..<length a]"

subsection \<open>The environment\<close>

definition format_state :: "ndarray \<Rightarrow> stone \<Rightarrow> nat \<Rightarrow> ndarray" where
  "format_state h c n =
     (let color_to_play = np_full n n 1 (stone_val c - 1);
          final_state = np_concatenate_last h color_to_play
      in final_state)"

definition calc_komi :: "nat \<Rightarrow> rat" where
  "calc_komi n =
     (if 14 \<le> n \<and> n \<le> 19 then 15 / 2
      else if 9 \<le> n \<and> n \<le> 13 then 11 / 2
      else 0)"

definition reset :: "'b engine \<Rightarrow> 'b GoGame \<Rightarrow> ndarray \<times> 'b GoGame" where
  "reset e g =
     (let g1 = g\<lparr>komi := calc_komi (board_size g)\<rparr>;
          g2 = g1\<lparr>board := CreateBoard e (board_size g1)\<rparr>;
          g3 = g2\<lparr>done_flag := False\<rparr>;
          g4 = g3\<lparr>history := np_zeros (board_size g3) (board_size g3) (HISTORY * 2)\<rparr>;
          g5 = g4\<lparr>state := np_zeros (board_size g4) (board_size g4) (HISTORY * 2 + 1)\<rparr>
      in (state g5, g5))"

text \<open>
  \<open>__init__\<close>: \<open>colormap[player_color]\<close> raises \<open>KeyError\<close> on any other string. The
  attributes that \<open>reset\<close> assigns do not exist before it runs, so their initial
  values here are never read.
\<close>

definition colormap :: "string \<Rightarrow> stone option" where
  "colormap = [''black'' \<mapsto> BLACK, ''white'' \<mapsto> WHITE]"

definition GoGame_init :: "'b engine \<Rightarrow> string \<Rightarrow> nat \<Rightarrow> error + 'b GoGame" where
  "GoGame_init e color n =
     (case colormap color of
        None \<Rightarrow> Inl KeyError
      | Some c \<Rightarrow>
          Inr (snd (reset e \<lparr>board_size = n, player_color = c, komi = 0,
                             board = CreateBoard e n, done_flag = False,
                             history = [], state = []\<rparr>)))"

text \<open>
  \<open>_act\<close>. The result is the exception raised, if any, and the instance as the call
  leaves it.
\<close>

definition act :: "'b engine \<Rightarrow> 'b GoGame \<Rightarrow> int \<Rightarrow> error option \<times> 'b GoGame" where
  "act e g action =
     (case action_to_coord e (board g) action of
        Inl err \<Rightarrow> (Some err, g)
      | Inr c \<Rightarrow>
          (case play e (board g) c (player_color g) of
             None \<Rightarrow> (Some IllegalMove, g)
           | Some b' \<Rightarrow>
               (let g1 = g\<lparr>board := b'\<rparr>;
                    enc = encode e (board g1);
                    color = stone_val (player_color g1) - 1;
                    g2 = g1\<lparr>history := np_roll_last (history g1)\<rparr>;
                    g3 = g2\<lparr>history := assign_plane0 (history g2) (enc ! nat color)\<rparr>;
                    g4 = g3\<lparr>player_color := stone_other (player_color g3)\<rparr>
                in (None, g4))))"

text \<open>
  \<open>play_action\<close>: the value returned or the exception raised, and the instance as the
  call leaves it.
\<close>

definition play_action ::
  "'b engine \<Rightarrow> 'b GoGame \<Rightarrow> int \<Rightarrow> (error + ndarray \<times> bool) \<times> 'b GoGame" where
  "play_action e g action =
     (case (if \<not> done_flag g then act e g action else (None, g)) of
        (Some err, g1) \<Rightarrow> (Inl err, g1)
      | (None, g1) \<Rightarrow>
          (let g2 = g1\<lparr>done_flag := is_terminal e (board g1)\<rparr>;
               g3 = g2\<lparr>state := format_state (history g2) (player_color g2) (board_size g2)\<rparr>
           in (Inr (state g3, done_flag g3), g3)))"

definition get_legal_actions :: "'b engine \<Rightarrow> 'b GoGame \<Rightarrow> int list" where
  "get_legal_actions e g =
     map (coord_to_action e (board g)) (get_legal_coords e (board g) (player_color g) True)"

definition get_reward :: "'b engine \<Rightarrow> 'b GoGame \<Rightarrow> int" where
  "get_reward e g =
     (let score = komi g + official_score e (board g);
          white_wins = score > 0;
          black_wins = score < 0;
          player_wins = ((white_wins \<and> player_color g = WHITE)
                         \<or> (black_wins \<and> player_color g = BLACK));
          reward = (if player_wins then 1 else if white_wins \<noteq> black_wins then - 1 else 0)
      in reward)"

text \<open>
  \<open>get_result_string\<close>. \<open>str\<close> is Python's conversion of a number to a string, a
  parameter here.
\<close>

definition players :: "bool \<Rightarrow> string" where
  "players w = (if w then ''W'' else ''B'')"

definition get_result_string :: "(rat \<Rightarrow> string) \<Rightarrow> 'b engine \<Rightarrow> 'b GoGame \<Rightarrow> string" where
  "get_result_string str e g =
     (let score = komi g + official_score e (board g);
          winner = players (score > 0)
      in if score = 0 then winner @ ''+'' @ players (\<not> (score > 0))
         else winner @ ''+'' @ str \<bar>score\<bar>)"

definition get_states :: "'b GoGame \<Rightarrow> ndarray" where
  "get_states g = state g"

subsection \<open>A small engine to run the environment on\<close>

text \<open>
  The theorems below hold for every engine. To apply them to concrete games the
  environment is run on this engine: a grid of 0 (empty), 1 (black) and 2 (white), a
  native coordinate \<open>(i + 1) * (size + 2) + (j + 1)\<close> on a board with a margin, the
  sentinels \<open>-1\<close> (pass) and \<open>-2\<close> (resign). A stone may be put on an empty point of
  the board and nothing is captured, resigning is rejected, two passes in a row end
  the game, the legal moves are the empty points and the pass, and the score is the
  number of white stones minus the number of black ones.
\<close>

record stub_board =
  sb_size :: nat
  sb_grid :: "int list list"
  sb_passes :: nat

definition stub_coord_to_ij :: "stub_board \<Rightarrow> int \<Rightarrow> int \<times> int" where
  "stub_coord_to_ij b c = (c div (int (sb_size b) + 2) - 1, c mod (int (sb_size b) + 2) - 1)"

definition stub_ij_to_coord :: "stub_board \<Rightarrow> int \<Rightarrow> int \<Rightarrow> int" where
  "stub_ij_to_coord b i j = (i + 1) * (int (sb_size b) + 2) + (j + 1)"

definition stub_play :: "stub_board \<Rightarrow> int \<Rightarrow> stone \<Rightarrow> stub_board option" where
  "stub_play b c s =
     (if c = - 1 then Some (b\<lparr>sb_passes := sb_passes b + 1\<rparr>)
      else if c = - 2 then None
      else (case stub_coord_to_ij b c of (i, j) \<Rightarrow>
        if 0 \<le> i \<and> i < int (sb_size b) \<and> 0 \<le> j \<and> j < int (sb_size b)
           \<and> sb_grid b ! nat i ! nat j = 0
        then Some (b\<lparr>sb_grid := (sb_grid b)[nat i := (sb_grid b ! nat i)[nat j := stone_val s]],
                     sb_passes := 0\<rparr>)
        else None))"

definition stub_plane :: "int \<Rightarrow> stub_board \<Rightarrow> plane" where
  "stub_plane v b = map (map (\<lambda>x. if x = v then 1 else 0)) (sb_grid b)"

definition stub_count :: "int \<Rightarrow> stub_board \<Rightarrow> nat" where
  "stub_count v b = length (filter (\<lambda>x. x = v) (concat (sb_grid b)))"

definition stub_legal_coords :: "stub_board \<Rightarrow> stone \<Rightarrow> bool \<Rightarrow> int list" where
  "stub_legal_coords b s filter_suicides =
     [stub_ij_to_coord b (int i) (int j).
        i \<leftarrow> [0..<sb_size b], j \<leftarrow> [0..<sb_size b], sb_grid b ! i ! j = 0] @ [- 1]"

definition stub_create :: "nat \<Rightarrow> stub_board" where
  "stub_create n = \<lparr>sb_size = n, sb_grid = replicate n (replicate n 0), sb_passes = 0\<rparr>"

definition stub_engine :: "stub_board engine" where
  "stub_engine =
     \<lparr>PASS_COORD = - 1, RESIGN_COORD = - 2,
      CreateBoard = stub_create,
      bsize = sb_size,
      coord_to_ij = stub_coord_to_ij,
      ij_to_coord = stub_ij_to_coord,
      play = stub_play,
      clone = (\<lambda>b. b),
      encode = (\<lambda>b. [stub_plane 1 b, stub_plane 2 b, stub_plane 0 b]),
      is_terminal = (\<lambda>b. 2 \<le> sb_passes b),
      official_score = (\<lambda>b. of_int (int (stub_count 2 b) - int (stub_count 1 b))),
      get_legal_coords = stub_legal_coords\<rparr>"

text \<open>A game: the instance after a list of \<open>play_action\<close> calls.\<close>

definition play_actions :: "'b engine \<Rightarrow> 'b GoGame \<Rightarrow> int list \<Rightarrow> 'b GoGame" where
  "play_actions e g as = foldl (\<lambda>g a. snd (play_action e g a)) g as"

definition new_game :: "string \<Rightarrow> nat \<Rightarrow> stub_board GoGame" where
  "new_game color n = projr (GoGame_init stub_engine color n)"

text \<open>
  \<open>str\<close> of a float that is a multiple of one half, not negative and below \<open>10^16\<close>:
  the digits of the whole part, a point, and \<open>0\<close> or \<open>5\<close>.
\<close>

function str_nat :: "nat \<Rightarrow> string" where
  "str_nat n =
     (if n < 10 then [''0123456789'' ! n]
      else str_nat (n div 10) @ [''0123456789'' ! (n mod 10)])"
  by pat_completeness auto
termination
  by (relation "measure id") auto

definition str_half :: "rat \<Rightarrow> string" where
  "str_half q =
     str_nat (nat \<lfloor>q\<rfloor>) @ ''.'' @ (if q = of_int \<lfloor>q\<rfloor> then ''0'' else ''5'')"

text \<open>
  A second small engine, with the coordinates of a Pachi board: a margin around the
  board and rows counted from the bottom, so that the point of row \<open>i\<close> and column \<open>j\<close>
  has the coordinate \<open>(j + 1) + (size - i) * (size + 2)\<close>. It accepts a resignation,
  which ends the game. A board of this engine is a grid of the first engine with a
  flag that tells whether a player has resigned.
\<close>

definition margin_ij_to_coord :: "stub_board \<times> bool \<Rightarrow> int \<Rightarrow> int \<Rightarrow> int" where
  "margin_ij_to_coord b i j =
     (j + 1) + (int (sb_size (fst b)) - i) * (int (sb_size (fst b)) + 2)"

definition margin_coord_to_ij :: "stub_board \<times> bool \<Rightarrow> int \<Rightarrow> int \<times> int" where
  "margin_coord_to_ij b c =
     (int (sb_size (fst b)) - c div (int (sb_size (fst b)) + 2),
      c mod (int (sb_size (fst b)) + 2) - 1)"

definition margin_play :: "stub_board \<times> bool \<Rightarrow> int \<Rightarrow> stone \<Rightarrow> (stub_board \<times> bool) option" where
  "margin_play b c s =
     (if c = - 1 then Some ((fst b)\<lparr>sb_passes := sb_passes (fst b) + 1\<rparr>, snd b)
      else if c = - 2 then Some (fst b, True)
      else (case margin_coord_to_ij b c of (i, j) \<Rightarrow>
        if 0 \<le> i \<and> i < int (sb_size (fst b)) \<and> 0 \<le> j \<and> j < int (sb_size (fst b))
           \<and> sb_grid (fst b) ! nat i ! nat j = 0
        then Some ((fst b)\<lparr>sb_grid := (sb_grid (fst b))
                              [nat i := (sb_grid (fst b) ! nat i)[nat j := stone_val s]],
                           sb_passes := 0\<rparr>, snd b)
        else None))"

definition margin_legal_coords :: "stub_board \<times> bool \<Rightarrow> stone \<Rightarrow> bool \<Rightarrow> int list" where
  "margin_legal_coords b s filter_suicides =
     [margin_ij_to_coord b (int i) (int j).
        i \<leftarrow> [0..<sb_size (fst b)], j \<leftarrow> [0..<sb_size (fst b)],
        sb_grid (fst b) ! i ! j = 0] @ [- 1, - 2]"

definition margin_engine :: "(stub_board \<times> bool) engine" where
  "margin_engine =
     \<lparr>PASS_COORD = - 1, RESIGN_COORD = - 2,
      CreateBoard = (\<lambda>n. (stub_create n, False)),
      bsize = (\<lambda>b. sb_size (fst b)),
      coord_to_ij = margin_coord_to_ij,
      ij_to_coord = margin_ij_to_coord,
      play = margin_play,
      clone = (\<lambda>b. b),
      encode = (\<lambda>b. [stub_plane 1 (fst b), stub_plane 2 (fst b), stub_plane 0 (fst b)]),
      is_terminal = (\<lambda>b. snd b \<or> 2 \<le> sb_passes (fst b)),
      official_score =
        (\<lambda>b. of_int (int (stub_count 2 (fst b)) - int (stub_count 1 (fst b)))),
      get_legal_coords = margin_legal_coords\<rparr>"

definition margin_game :: "string \<Rightarrow> nat \<Rightarrow> (stub_board \<times> bool) GoGame" where
  "margin_game color n = projr (GoGame_init margin_engine color n)"

subsection \<open>The instances that the methods can produce\<close>

text \<open>
  An instance is made by the constructor and changed by \<open>play_action\<close> and \<open>reset\<close>
  only; \<open>play_action\<close> may have returned or raised.
\<close>

inductive reachable :: "'b engine \<Rightarrow> 'b GoGame \<Rightarrow> bool" for e :: "'b engine" where
  init: "GoGame_init e color n = Inr g \<Longrightarrow> reachable e g"
| step: "reachable e g \<Longrightarrow> play_action e g a = (r, g') \<Longrightarrow> reachable e g'"
| again: "reachable e g \<Longrightarrow> reset e g = (s, g') \<Longrightarrow> reachable e g'"

subsection \<open>Instances as objects in a store\<close>

text \<open>
  The definitions above pass an instance by value, which cannot tell a copy from an
  alias. Here the objects of a program live in a store: the \<open>GoGame\<close> instances, the
  boards of the engine and the numpy arrays, each at a reference. An attribute of an
  instance holds a number, a colour or a truth value, or the reference of a board or
  of an array. \<open>next_ref\<close> is the first reference not yet in use.
\<close>

type_synonym ref = nat

record game_obj =
  o_board_size :: nat
  o_player_color :: stone
  o_komi :: rat
  o_board :: ref
  o_done :: bool
  o_history :: ref
  o_state :: ref

record 'b store =
  games :: "ref \<Rightarrow> game_obj option"
  boards :: "ref \<Rightarrow> 'b option"
  arrays :: "ref \<Rightarrow> ndarray option"
  next_ref :: ref

definition empty_store :: "'b store" where
  "empty_store = \<lparr>games = Map.empty, boards = Map.empty, arrays = Map.empty, next_ref = 0\<rparr>"

text \<open>A new board object and a new array object.\<close>

definition new_board :: "'b \<Rightarrow> 'b store \<Rightarrow> ref \<times> 'b store" where
  "new_board b s =
     (next_ref s, s\<lparr>boards := (boards s)(next_ref s \<mapsto> b), next_ref := Suc (next_ref s)\<rparr>)"

definition new_array :: "ndarray \<Rightarrow> 'b store \<Rightarrow> ref \<times> 'b store" where
  "new_array a s =
     (next_ref s, s\<lparr>arrays := (arrays s)(next_ref s \<mapsto> a), next_ref := Suc (next_ref s)\<rparr>)"

text \<open>An assignment to an attribute of the instance at \<open>r\<close>.\<close>

definition set_attr :: "ref \<Rightarrow> (game_obj \<Rightarrow> game_obj) \<Rightarrow> 'b store \<Rightarrow> 'b store" where
  "set_attr r f s = s\<lparr>games := (games s)(r := map_option f (games s r))\<rparr>"

text \<open>
  The instance at \<open>r\<close> by value: its attributes, with the board and the arrays that
  its references lead to.
\<close>

definition view :: "'b store \<Rightarrow> ref \<Rightarrow> 'b GoGame option" where
  "view s r =
     (case games s r of None \<Rightarrow> None | Some ob \<Rightarrow>
     (case boards s (o_board ob) of None \<Rightarrow> None | Some b \<Rightarrow>
     (case arrays s (o_history ob) of None \<Rightarrow> None | Some h \<Rightarrow>
     (case arrays s (o_state ob) of None \<Rightarrow> None | Some st \<Rightarrow>
        Some \<lparr>board_size = o_board_size ob, player_color = o_player_color ob,
              komi = o_komi ob, board = b, done_flag = o_done ob,
              history = h, state = st\<rparr>))))"

text \<open>
  The methods on the store. A method on a reference that leads to no object has the
  value \<open>None\<close>; no program can make such a call. \<open>reset\<close> binds \<open>board\<close>, \<open>history\<close>
  and \<open>state\<close> to new objects and returns the array \<open>self.state\<close> itself.
\<close>

definition obj_reset :: "'b engine \<Rightarrow> 'b store \<Rightarrow> ref \<Rightarrow> (ref \<times> 'b store) option" where
  "obj_reset e s r =
     (case games s r of None \<Rightarrow> None | Some ob \<Rightarrow>
        (let n = o_board_size ob;
             s1 = set_attr r (\<lambda>x. x\<lparr>o_komi := calc_komi n\<rparr>) s;
             (br, s2) = new_board (CreateBoard e n) s1;
             s3 = set_attr r (\<lambda>x. x\<lparr>o_board := br\<rparr>) s2;
             s4 = set_attr r (\<lambda>x. x\<lparr>o_done := False\<rparr>) s3;
             (hr, s5) = new_array (np_zeros n n (HISTORY * 2)) s4;
             s6 = set_attr r (\<lambda>x. x\<lparr>o_history := hr\<rparr>) s5;
             (sr, s7) = new_array (np_zeros n n (HISTORY * 2 + 1)) s6;
             s8 = set_attr r (\<lambda>x. x\<lparr>o_state := sr\<rparr>) s7
         in Some (sr, s8)))"

text \<open>
  The constructor: a new instance, whose attributes \<open>reset\<close> binds to new objects.
\<close>

definition obj_init ::
  "'b engine \<Rightarrow> 'b store \<Rightarrow> string \<Rightarrow> nat \<Rightarrow> (error + ref) \<times> 'b store" where
  "obj_init e s color n =
     (case colormap color of
        None \<Rightarrow> (Inl KeyError, s)
      | Some c \<Rightarrow>
          (let r = next_ref s;
               s0 = s\<lparr>next_ref := Suc (next_ref s)\<rparr>;
               (br, s1) = new_board (CreateBoard e n) s0;
               (hr, s2) = new_array (np_zeros n n (HISTORY * 2)) s1;
               (sr, s3) = new_array (np_zeros n n (HISTORY * 2 + 1)) s2
           in (Inr r,
               s3\<lparr>games := (games s3)(r \<mapsto>
                    \<lparr>o_board_size = n, o_player_color = c, o_komi = calc_komi n,
                     o_board = br, o_done = False, o_history = hr, o_state = sr\<rparr>)\<rparr>)))"

text \<open>
  \<open>_act\<close>. Whether the engine's \<open>play\<close> returns a new board object or changes the
  board it is called on and returns it is the engine's affair: \<open>inplace\<close> chooses, and
  the theorems hold for both. \<open>np.roll\<close> returns a new array, to which \<open>history\<close> is
  bound before the plane is assigned into it.
\<close>

definition obj_act ::
  "'b engine \<Rightarrow> bool \<Rightarrow> 'b store \<Rightarrow> ref \<Rightarrow> int \<Rightarrow> (error option \<times> 'b store) option" where
  "obj_act e inplace s r action =
     (case games s r of None \<Rightarrow> None | Some ob \<Rightarrow>
     (case boards s (o_board ob) of None \<Rightarrow> None | Some b \<Rightarrow>
     (case action_to_coord e b action of
        Inl err \<Rightarrow> Some (Some err, s)
      | Inr c \<Rightarrow>
          (case play e b c (o_player_color ob) of
             None \<Rightarrow> Some (Some IllegalMove, s)
           | Some b' \<Rightarrow>
               (let (br, s1) =
                      (if inplace then (o_board ob, s\<lparr>boards := (boards s)(o_board ob \<mapsto> b')\<rparr>)
                       else new_board b' s);
                    s2 = set_attr r (\<lambda>x. x\<lparr>o_board := br\<rparr>) s1;
                    enc = encode e b';
                    color = stone_val (o_player_color ob) - 1
                in (case arrays s2 (o_history ob) of None \<Rightarrow> None | Some h \<Rightarrow>
                     (let (hr, s3) = new_array (np_roll_last h) s2;
                          s4 = set_attr r (\<lambda>x. x\<lparr>o_history := hr\<rparr>) s3;
                          s5 = s4\<lparr>arrays := (arrays s4)(hr \<mapsto>
                                  assign_plane0 (np_roll_last h) (enc ! nat color))\<rparr>;
                          s6 = set_attr r
                                 (\<lambda>x. x\<lparr>o_player_color := stone_other (o_player_color ob)\<rparr>)
                                 s5
                      in Some (None, s6))))))))"

text \<open>
  \<open>_format_state\<close> on the array at \<open>history_ref\<close>: \<open>np.full\<close> makes a new array and
  \<open>np.concatenate\<close> another, which is returned.
\<close>

definition obj_format_state ::
  "'b store \<Rightarrow> ref \<Rightarrow> stone \<Rightarrow> nat \<Rightarrow> (ref \<times> 'b store) option" where
  "obj_format_state s history_ref c n =
     (case arrays s history_ref of None \<Rightarrow> None | Some h \<Rightarrow>
        (let (color_to_play, s1) = new_array (np_full n n 1 (stone_val c - 1)) s
         in (case arrays s1 color_to_play of None \<Rightarrow> None | Some cp \<Rightarrow>
               (let (final_state, s2) = new_array (np_concatenate_last h cp) s1
                in Some (final_state, s2)))))"

text \<open>
  \<open>play_action\<close>. The value returned is the array \<open>self.state\<close> itself and the flag.
\<close>

definition obj_play_action ::
  "'b engine \<Rightarrow> bool \<Rightarrow> 'b store \<Rightarrow> ref \<Rightarrow> int
     \<Rightarrow> ((error + ref \<times> bool) \<times> 'b store) option" where
  "obj_play_action e inplace s r action =
     (case games s r of None \<Rightarrow> None | Some ob \<Rightarrow>
     (case (if \<not> o_done ob then obj_act e inplace s r action else Some (None, s)) of
        None \<Rightarrow> None
      | Some (Some err, s1) \<Rightarrow> Some (Inl err, s1)
      | Some (None, s1) \<Rightarrow>
          (case games s1 r of None \<Rightarrow> None | Some ob1 \<Rightarrow>
          (case boards s1 (o_board ob1) of None \<Rightarrow> None | Some b1 \<Rightarrow>
             (let s2 = set_attr r (\<lambda>x. x\<lparr>o_done := is_terminal e b1\<rparr>) s1
              in (case obj_format_state s2 (o_history ob1) (o_player_color ob1)
                         (o_board_size ob1) of
                    None \<Rightarrow> None
                  | Some (sr, s3) \<Rightarrow>
                      (let s4 = set_attr r (\<lambda>x. x\<lparr>o_state := sr\<rparr>) s3
                       in Some (Inr (sr, is_terminal e b1), s4))))))))"

text \<open>
  \<open>__deepcopy__\<close>. \<open>cls.__new__\<close> makes the new instance; the attributes are copied in
  the order in which \<open>__init__\<close> and \<open>reset\<close> made them. \<open>board\<close> is bound to the
  engine's clone of the board, a new board object. \<open>deepcopy\<close> returns a number, a
  colour or a truth value as it is and returns a new array with the same entries for
  an array, once for each array: were \<open>state\<close> the same array object as \<open>history\<close>, the
  memo would give the copy of \<open>history\<close> for it.
\<close>

definition obj_deepcopy :: "'b engine \<Rightarrow> 'b store \<Rightarrow> ref \<Rightarrow> (ref \<times> 'b store) option" where
  "obj_deepcopy e s r =
     (case games s r of None \<Rightarrow> None | Some ob \<Rightarrow>
     (case boards s (o_board ob) of None \<Rightarrow> None | Some b \<Rightarrow>
     (case arrays s (o_history ob) of None \<Rightarrow> None | Some h \<Rightarrow>
     (case arrays s (o_state ob) of None \<Rightarrow> None | Some st \<Rightarrow>
        (let result = next_ref s;
             s0 = s\<lparr>next_ref := Suc (next_ref s)\<rparr>;
             (br, s1) = new_board (clone e b) s0;
             (hr, s2) = new_array h s1;
             (sr, s3) = (if o_state ob = o_history ob then (hr, s2) else new_array st s2)
         in Some (result,
                  s3\<lparr>games := (games s3)(result \<mapsto>
                       \<lparr>o_board_size = o_board_size ob,
                        o_player_color = o_player_color ob, o_komi = o_komi ob,
                        o_board = br, o_done = o_done ob,
                        o_history = hr, o_state = sr\<rparr>)\<rparr>))))))"

text \<open>
  A program that calls \<open>play_action\<close> and \<open>reset\<close> on instances: each call names its
  instance. \<open>call_value\<close> is the same call on an instance by value.
\<close>

datatype call = Step int | Reset

definition obj_call :: "'b engine \<Rightarrow> bool \<Rightarrow> 'b store \<Rightarrow> ref \<Rightarrow> call \<Rightarrow> 'b store option" where
  "obj_call e inplace s r c =
     (case c of
        Step a \<Rightarrow> map_option snd (obj_play_action e inplace s r a)
      | Reset \<Rightarrow> map_option snd (obj_reset e s r))"

fun obj_calls :: "'b engine \<Rightarrow> bool \<Rightarrow> 'b store \<Rightarrow> (ref \<times> call) list \<Rightarrow> 'b store option" where
  "obj_calls e inplace s [] = Some s"
| "obj_calls e inplace s ((r, c) # cs) =
     (case obj_call e inplace s r c of
        None \<Rightarrow> None
      | Some s' \<Rightarrow> obj_calls e inplace s' cs)"

definition call_value :: "'b engine \<Rightarrow> 'b GoGame \<Rightarrow> call \<Rightarrow> 'b GoGame" where
  "call_value e g c =
     (case c of Step a \<Rightarrow> snd (play_action e g a) | Reset \<Rightarrow> snd (reset e g))"

definition calls_on :: "ref \<Rightarrow> (ref \<times> call) list \<Rightarrow> call list" where
  "calls_on r cs = map snd (filter (\<lambda>x. fst x = r) cs)"

text \<open>
  No object lies at or beyond \<open>next_ref\<close>; and two instances share neither a board
  object nor an array object.
\<close>

definition fresh_store :: "'b store \<Rightarrow> bool" where
  "fresh_store s =
     (\<forall>r. next_ref s \<le> r \<longrightarrow> games s r = None \<and> boards s r = None \<and> arrays s r = None)"

definition separate :: "'b store \<Rightarrow> ref \<Rightarrow> ref \<Rightarrow> bool" where
  "separate s r c =
     (r \<noteq> c \<and>
      (case games s r of None \<Rightarrow> False | Some x \<Rightarrow>
      (case games s c of None \<Rightarrow> False | Some y \<Rightarrow>
         o_board x \<noteq> o_board y
         \<and> o_history x \<noteq> o_history y \<and> o_history x \<noteq> o_state y
         \<and> o_state x \<noteq> o_history y \<and> o_state x \<noteq> o_state y)))"

text \<open>A store with one instance, made by \<open>GoGame('black', 2)\<close> on the small engine.\<close>

definition demo_store :: "stub_board store" where
  "demo_store = snd (obj_init stub_engine empty_store ''black'' 2)"

section \<open>Properties\<close>

subsection \<open>The stepping function\<close>

lemma play_action_done:
  "done_flag g \<Longrightarrow> play_action e g a =
     (Inr (format_state (history g) (player_color g) (board_size g), is_terminal e (board g)),
      g\<lparr>done_flag := is_terminal e (board g),
        state := format_state (history g) (player_color g) (board_size g)\<rparr>)"
  by (simp add: play_action_def Let_def)

lemma play_action_Inr_fields:
  assumes "play_action e g a = (Inr (s, d), g')"
  shows "d = is_terminal e (board g')" "done_flag g' = d" "state g' = s"
    "s = format_state (history g') (player_color g') (board_size g')"
  using assms
  by (auto simp: play_action_def Let_def split: if_splits prod.splits option.splits)

lemma act_illegal:
  "action_to_coord e (board g) a = Inr c \<Longrightarrow> play e (board g) c (player_color g) = None \<Longrightarrow>
   act e g a = (Some IllegalMove, g)"
  by (simp add: act_def)

lemma act_success:
  "action_to_coord e (board g) a = Inr c \<Longrightarrow> play e (board g) c (player_color g) = Some b' \<Longrightarrow>
   act e g a =
     (None, g\<lparr>board := b',
              history := assign_plane0 (np_roll_last (history g))
                           (encode e b' ! nat (stone_val (player_color g) - 1)),
              player_color := stone_other (player_color g)\<rparr>)"
  by (simp add: act_def Let_def)

lemma play_action_success:
  assumes "\<not> done_flag g" and "play_action e g a = (Inr r, g')"
  shows "\<exists>c b'. action_to_coord e (board g) a = Inr c
           \<and> play e (board g) c (player_color g) = Some b'
           \<and> g' = g\<lparr>board := b',
                     history := assign_plane0 (np_roll_last (history g))
                                  (encode e b' ! nat (stone_val (player_color g) - 1)),
                     player_color := stone_other (player_color g),
                     done_flag := is_terminal e b',
                     state := format_state
                                (assign_plane0 (np_roll_last (history g))
                                   (encode e b' ! nat (stone_val (player_color g) - 1)))
                                (stone_other (player_color g)) (board_size g)\<rparr>"
  using assms
  by (auto simp: play_action_def act_def Let_def split: sum.splits option.splits)

text \<open>
  C4. When the game is not over and the engine rejects the coordinate that the action
  decodes to, \<open>play_action\<close> raises \<open>IllegalMove\<close> and leaves every attribute of the
  instance as it was.
\<close>

theorem illegal_move_propagates:
  assumes "\<not> done_flag g"
    and "action_to_coord e (board g) a = Inr c"
    and "play e (board g) c (player_color g) = None"
  shows "play_action e g a = (Inl IllegalMove, g)"
  using assms by (simp add: play_action_def act_illegal)

theorem illegal_move_propagates_witness:
  "\<not> done_flag (play_actions stub_engine (new_game ''black'' 2) [0])
   \<and> action_to_coord stub_engine (board (play_actions stub_engine (new_game ''black'' 2) [0])) 0
       = Inr 5
   \<and> play stub_engine (board (play_actions stub_engine (new_game ''black'' 2) [0])) 5
       (player_color (play_actions stub_engine (new_game ''black'' 2) [0])) = None
   \<and> play_action stub_engine (play_actions stub_engine (new_game ''black'' 2) [0]) 0
       = (Inl IllegalMove, play_actions stub_engine (new_game ''black'' 2) [0])"
proof -
  let ?g = "play_actions stub_engine (new_game ''black'' 2) [0]"
  have h1: "\<not> done_flag ?g" by code_simp
  have h2: "action_to_coord stub_engine (board ?g) 0 = Inr 5" by code_simp
  have h3: "play stub_engine (board ?g) 5 (player_color ?g) = None" by code_simp
  show ?thesis using h1 h2 h3 illegal_move_propagates [OF h1 h2 h3] by simp
qed

text \<open>
  C5. Once a call of \<open>play_action\<close> has returned \<open>done = True\<close>, the done flag of the
  instance is set, and a further call, with any action, returns \<open>done = True\<close> and the
  same state tensor and leaves every attribute of the instance as it was. The
  conclusion is the hypothesis again, for the further call, so the same holds of
  every call after it.
\<close>

theorem terminal_monotonicity:
  assumes "play_action e g a = (Inr (s, True), g')"
  shows "done_flag g' \<and> play_action e g' b = (Inr (s, True), g')"
proof -
  note f = play_action_Inr_fields [OF assms]
  have "done_flag g'" using f by simp
  moreover have "g'\<lparr>done_flag := True, state := s\<rparr> = g'" using f by simp
  ultimately show ?thesis using f by (simp add: play_action_done)
qed

theorem terminal_monotonicity_witness:
  "play_action stub_engine (play_actions stub_engine (new_game ''black'' 2) [0, 4]) 4
     = (Inr (state (play_actions stub_engine (new_game ''black'' 2) [0, 4, 4]), True),
        play_actions stub_engine (new_game ''black'' 2) [0, 4, 4])
   \<and> done_flag (play_actions stub_engine (new_game ''black'' 2) [0, 4, 4])
   \<and> play_action stub_engine (play_actions stub_engine (new_game ''black'' 2) [0, 4, 4]) 1
     = (Inr (state (play_actions stub_engine (new_game ''black'' 2) [0, 4, 4]), True),
        play_actions stub_engine (new_game ''black'' 2) [0, 4, 4])"
proof -
  let ?g = "play_actions stub_engine (new_game ''black'' 2) [0, 4]"
  let ?g' = "play_actions stub_engine (new_game ''black'' 2) [0, 4, 4]"
  have h: "play_action stub_engine ?g 4 = (Inr (state ?g', True), ?g')" by code_simp
  show ?thesis using h terminal_monotonicity [OF h, of 1] by simp
qed

subsection \<open>The action codec\<close>

lemma div_lt_of_lt_square:
  fixes a n :: int
  assumes "0 < n" "a < n * n"
  shows "a div n < n"
proof -
  have "a div n * n + a mod n = a" by simp
  moreover have "0 \<le> a mod n" using assms by simp
  ultimately have "a div n * n < n * n" using assms by linarith
  then show ?thesis using assms by (simp add: mult_less_cancel_right_pos)
qed

text \<open>
  The small engine has what the codec needs of an engine: on the points of the board
  \<open>coord_to_ij\<close> undoes \<open>ij_to_coord\<close>, whose value is never a sentinel.
\<close>

lemma stub_coords:
  assumes "0 \<le> i" "i < int (sb_size b)" "0 \<le> j" "j < int (sb_size b)"
  shows "stub_coord_to_ij b (stub_ij_to_coord b i j) = (i, j)"
    and "stub_ij_to_coord b i j \<noteq> - 1" and "stub_ij_to_coord b i j \<noteq> - 2"
proof -
  let ?m = "int (sb_size b) + 2"
  have m: "0 < ?m" by simp
  have j: "0 \<le> j + 1" "j + 1 < ?m" using assms by simp_all
  have "((i + 1) * ?m + (j + 1)) div ?m = i + 1"
    using j m by (simp add: div_pos_pos_trivial)
  moreover have "((i + 1) * ?m + (j + 1)) mod ?m = j + 1"
    using j m by (simp add: mod_pos_pos_trivial)
  ultimately show "stub_coord_to_ij b (stub_ij_to_coord b i j) = (i, j)"
    by (simp add: stub_coord_to_ij_def stub_ij_to_coord_def)
  have "0 \<le> (i + 1) * ?m" using assms by simp
  moreover have "0 < j + 1" using assms by simp
  ultimately have "0 < (i + 1) * ?m + (j + 1)" by (rule add_nonneg_pos)
  then show "stub_ij_to_coord b i j \<noteq> - 1" "stub_ij_to_coord b i j \<noteq> - 2"
    by (simp_all add: stub_ij_to_coord_def)
qed

text \<open>
  C2. On a board of size at least 1 of an engine whose \<open>coord_to_ij\<close> undoes
  \<open>ij_to_coord\<close> on the points of the board, with sentinels that differ from each other
  and from every point, each action from 0 to \<open>size\<^sup>2 + 1\<close> is decoded without an error
  to a coordinate that \<open>coord_to_action\<close> encodes as the same action; the action
  \<open>size\<^sup>2\<close>, and no other, is decoded to the pass sentinel, and \<open>size\<^sup>2 + 1\<close>, and no
  other, to the resign sentinel.
\<close>

theorem codec_round_trip:
  assumes n: "1 \<le> bsize e b"
    and a: "0 \<le> a" "a \<le> int (bsize e b) ^ 2 + 1"
    and sentinels: "PASS_COORD e \<noteq> RESIGN_COORD e"
    and inv: "\<forall>i j. 0 \<le> i \<and> i < int (bsize e b) \<and> 0 \<le> j \<and> j < int (bsize e b) \<longrightarrow>
               coord_to_ij e b (ij_to_coord e b i j) = (i, j)
               \<and> ij_to_coord e b i j \<noteq> PASS_COORD e \<and> ij_to_coord e b i j \<noteq> RESIGN_COORD e"
  shows "(case action_to_coord e b a of
            Inl err \<Rightarrow> False
          | Inr c \<Rightarrow> coord_to_action e b c = a
              \<and> (c = PASS_COORD e \<longleftrightarrow> a = int (bsize e b) ^ 2)
              \<and> (c = RESIGN_COORD e \<longleftrightarrow> a = int (bsize e b) ^ 2 + 1))"
proof -
  let ?n = "int (bsize e b)"
  have npos: "0 < ?n" using n by simp
  consider "a = ?n ^ 2" | "a = ?n ^ 2 + 1" | "a < ?n ^ 2" using a by linarith
  then show ?thesis
  proof cases
    case 1
    then show ?thesis using sentinels
      by (simp add: action_to_coord_def coord_to_action_def pass_action_def resign_action_def)
  next
    case 2
    then show ?thesis using sentinels
      by (simp add: action_to_coord_def coord_to_action_def pass_action_def resign_action_def)
  next
    case 3
    then have lt: "a < ?n * ?n" by (simp add: power2_eq_square)
    have bd: "0 \<le> a div ?n" "a div ?n < ?n" "0 \<le> a mod ?n" "a mod ?n < ?n"
      using npos a(1) div_lt_of_lt_square [OF npos lt]
      by (simp_all add: pos_imp_zdiv_nonneg_iff)
    from inv bd
    have r: "coord_to_ij e b (ij_to_coord e b (a div ?n) (a mod ?n)) = (a div ?n, a mod ?n)"
      "ij_to_coord e b (a div ?n) (a mod ?n) \<noteq> PASS_COORD e"
      "ij_to_coord e b (a div ?n) (a mod ?n) \<noteq> RESIGN_COORD e"
      by blast+
    have ne: "a \<noteq> ?n ^ 2" "a \<noteq> ?n ^ 2 + 1" using 3 by simp_all
    have c: "action_to_coord e b a = Inr (ij_to_coord e b (a div ?n) (a mod ?n))"
      using ne npos by (simp add: action_to_coord_def pass_action_def resign_action_def)
    show ?thesis using r ne c
      by (simp add: coord_to_action_def)
  qed
qed

theorem codec_round_trip_witness:
  "action_to_coord stub_engine (stub_create 9) 40 = Inr 60
   \<and> coord_to_action stub_engine (stub_create 9) 60 = 40
   \<and> action_to_coord stub_engine (stub_create 9) 81 = Inr (- 1)
   \<and> coord_to_action stub_engine (stub_create 9) (- 1) = 81"
proof -
  let ?b = "stub_create 9"
  have n: "1 \<le> bsize stub_engine ?b" by (simp add: stub_engine_def stub_create_def)
  have s: "PASS_COORD stub_engine \<noteq> RESIGN_COORD stub_engine" by (simp add: stub_engine_def)
  have inv: "\<forall>i j. 0 \<le> i \<and> i < int (bsize stub_engine ?b) \<and> 0 \<le> j \<and> j < int (bsize stub_engine ?b) \<longrightarrow>
               coord_to_ij stub_engine ?b (ij_to_coord stub_engine ?b i j) = (i, j)
               \<and> ij_to_coord stub_engine ?b i j \<noteq> PASS_COORD stub_engine
               \<and> ij_to_coord stub_engine ?b i j \<noteq> RESIGN_COORD stub_engine"
    using stub_coords [of _ ?b] by (simp add: stub_engine_def)
  have a40: "(0::int) \<le> 40" "40 \<le> int (bsize stub_engine ?b) ^ 2 + 1"
    by (simp_all add: stub_engine_def stub_create_def)
  have a81: "(0::int) \<le> 81" "81 \<le> int (bsize stub_engine ?b) ^ 2 + 1"
    by (simp_all add: stub_engine_def stub_create_def)
  have c40: "action_to_coord stub_engine ?b 40 = Inr 60" by code_simp
  have c81: "action_to_coord stub_engine ?b 81 = Inr (- 1)" by code_simp
  show ?thesis
    using codec_round_trip [OF n a40 s inv] codec_round_trip [OF n a81 s inv] c40 c81
    by simp
qed

subsection \<open>The result of a game\<close>

lemma get_reward_cases:
  "get_reward e g =
     (if komi g + official_score e (board g) = 0 then 0
      else if (komi g + official_score e (board g) > 0) = (player_color g = WHITE) then 1
      else - 1)"
  by (cases "player_color g") (auto simp: get_reward_def Let_def)

text \<open>
  C10. \<open>get_reward\<close> returns \<open>-1\<close>, 0 or 1, and it returns 0 exactly when the komi plus
  the engine's score is zero.
\<close>

theorem reward_range:
  "get_reward e g \<in> {- 1, 0, 1}
   \<and> (get_reward e g = 0 \<longleftrightarrow> komi g + official_score e (board g) = 0)"
  by (simp add: get_reward_cases)

text \<open>
  C8. With \<open>score\<close> the komi plus the engine's score: when \<open>score\<close> is positive the
  result string is \<open>W+\<close> followed by \<open>str(abs(score))\<close>, when it is negative \<open>B+\<close>
  followed by \<open>str(abs(score))\<close>, and when it is zero the string is \<open>B+W\<close>.
\<close>

theorem result_string:
  "(komi g + official_score e (board g) > 0 \<longrightarrow>
      get_result_string str e g = ''W+'' @ str \<bar>komi g + official_score e (board g)\<bar>)
   \<and> (komi g + official_score e (board g) < 0 \<longrightarrow>
      get_result_string str e g = ''B+'' @ str \<bar>komi g + official_score e (board g)\<bar>)
   \<and> (komi g + official_score e (board g) = 0 \<longrightarrow> get_result_string str e g = ''B+W'')"
  by (simp add: get_result_string_def players_def Let_def)

theorem result_string_witness:
  "komi (play_actions stub_engine (new_game ''black'' 9) [81, 81])
     + official_score stub_engine (board (play_actions stub_engine (new_game ''black'' 9) [81, 81]))
     = 11 / 2
   \<and> get_result_string str_half stub_engine
       (play_actions stub_engine (new_game ''black'' 9) [81, 81]) = ''W+5.5''
   \<and> komi (play_actions stub_engine (new_game ''black'' 2) [0, 4, 4])
     + official_score stub_engine (board (play_actions stub_engine (new_game ''black'' 2) [0, 4, 4]))
     = - 1
   \<and> get_result_string str_half stub_engine
       (play_actions stub_engine (new_game ''black'' 2) [0, 4, 4]) = ''B+1.0''
   \<and> komi (new_game ''black'' 2) + official_score stub_engine (board (new_game ''black'' 2)) = 0
   \<and> get_result_string str_half stub_engine (new_game ''black'' 2) = ''B+W''"
proof -
  let ?g = "play_actions stub_engine (new_game ''black'' 9) [81, 81]"
  let ?h = "play_actions stub_engine (new_game ''black'' 2) [0, 4, 4]"
  let ?z = "new_game ''black'' 2"
  have g: "komi ?g + official_score stub_engine (board ?g) = 11 / 2" by code_simp
  have h: "komi ?h + official_score stub_engine (board ?h) = - 1" by code_simp
  have z: "komi ?z + official_score stub_engine (board ?z) = 0" by code_simp
  have s: "str_half (11 / 2) = ''5.5''" "str_half 1 = ''1.0''" by code_simp+
  show ?thesis
    using result_string [of ?g stub_engine str_half] result_string [of ?h stub_engine str_half]
      result_string [of ?z stub_engine str_half] g h z s
    by simp
qed

text \<open>
  C1. The claim gives the reward 1 to the colour chosen at construction when the sign
  of the score favours that colour, and the docstring of \<open>__init__\<close> calls
  \<open>player_color\<close> the stone colour of the agent. \<open>get_reward\<close> does not do that: it
  compares the winner with \<open>player_color\<close> as \<open>_act\<close> has left it, switched after every
  move. A game made with \<open>GoGame('black', 2)\<close>: black plays the point 0, white passes
  (action 4), black passes. The game is over, the score is \<open>-1\<close>, in favour of black,
  the colour given to the constructor, and \<open>get_reward\<close> returns \<open>-1\<close>: three moves
  have been made and \<open>player_color\<close> is white.
\<close>

theorem reward_after_three_moves:
  "GoGame_init stub_engine ''black'' 2 = Inr (new_game ''black'' 2)
   \<and> player_color (new_game ''black'' 2) = BLACK
   \<and> done_flag (play_actions stub_engine (new_game ''black'' 2) [0, 4, 4])
   \<and> is_terminal stub_engine (board (play_actions stub_engine (new_game ''black'' 2) [0, 4, 4]))
   \<and> komi (play_actions stub_engine (new_game ''black'' 2) [0, 4, 4])
       + official_score stub_engine
           (board (play_actions stub_engine (new_game ''black'' 2) [0, 4, 4])) = - 1
   \<and> get_reward stub_engine (play_actions stub_engine (new_game ''black'' 2) [0, 4, 4]) = - 1
   \<and> player_color (play_actions stub_engine (new_game ''black'' 2) [0, 4, 4]) = WHITE"
  by code_simp

subsection \<open>Actions beyond the resign action\<close>

text \<open>
  C3, as the code has it. The codec has no range check and the module no
  \<open>InvalidAction\<close>. On a board of size at least 1, an action above \<open>size\<^sup>2 + 1\<close> is
  decoded without an error to the engine's \<open>ij_to_coord(a // size, a % size)\<close>, and
  \<open>play_action\<close> on a game that is not over submits that coordinate to the engine, as
  it does for any action. If the engine rejects the coordinate, \<open>play_action\<close> raises
  the engine's \<open>IllegalMove\<close> and leaves the board, the history buffer and every other
  attribute as they were. If the engine accepts it, the move is made: the board is the
  engine's new board, the history is rotated with the mover's plane at the front, the
  colour is switched, and \<open>done\<close> and \<open>state\<close> are computed from them and returned.
\<close>

theorem out_of_range_action:
  assumes "1 \<le> bsize e (board g)"
    and "int (bsize e (board g)) ^ 2 + 1 < a"
    and "\<not> done_flag g"
  shows "action_to_coord e (board g) a
           = Inr (ij_to_coord e (board g) (a div int (bsize e (board g)))
                    (a mod int (bsize e (board g))))
         \<and> play_action e g a
           = (case play e (board g)
                     (ij_to_coord e (board g) (a div int (bsize e (board g)))
                        (a mod int (bsize e (board g))))
                     (player_color g) of
                None \<Rightarrow> (Inl IllegalMove, g)
              | Some b' \<Rightarrow>
                  (Inr (format_state
                          (assign_plane0 (np_roll_last (history g))
                             (encode e b' ! nat (stone_val (player_color g) - 1)))
                          (stone_other (player_color g)) (board_size g),
                        is_terminal e b'),
                   g\<lparr>board := b',
                     history := assign_plane0 (np_roll_last (history g))
                                  (encode e b' ! nat (stone_val (player_color g) - 1)),
                     player_color := stone_other (player_color g),
                     done_flag := is_terminal e b',
                     state := format_state
                                (assign_plane0 (np_roll_last (history g))
                                   (encode e b' ! nat (stone_val (player_color g) - 1)))
                                (stone_other (player_color g)) (board_size g)\<rparr>))"
proof -
  have c: "action_to_coord e (board g) a
             = Inr (ij_to_coord e (board g) (a div int (bsize e (board g)))
                      (a mod int (bsize e (board g))))"
    using assms(1,2) by (simp add: action_to_coord_def pass_action_def resign_action_def)
  show ?thesis
    using c assms(3)
    by (simp add: play_action_def act_def Let_def split: option.splits)
qed

theorem out_of_range_action_witness:
  "1 \<le> bsize margin_engine (board (play_actions margin_engine (margin_game ''black'' 9) [0]))
   \<and> int (bsize margin_engine
             (board (play_actions margin_engine (margin_game ''black'' 9) [0]))) ^ 2 + 1 < 83
   \<and> \<not> done_flag (play_actions margin_engine (margin_game ''black'' 9) [0])
   \<and> action_to_coord margin_engine
         (board (play_actions margin_engine (margin_game ''black'' 9) [0])) 83 = Inr 3
   \<and> play_action margin_engine (play_actions margin_engine (margin_game ''black'' 9) [0]) 83
       = (Inl IllegalMove, play_actions margin_engine (margin_game ''black'' 9) [0])
   \<and> action_to_coord margin_engine
         (board (play_actions margin_engine (margin_game ''black'' 9) [0])) 98 = Inr (- 2)
   \<and> fst (play_action margin_engine
              (play_actions margin_engine (margin_game ''black'' 9) [0]) 98)
       = Inr (state (play_actions margin_engine (margin_game ''black'' 9) [0, 98]), True)
   \<and> board (snd (play_action margin_engine
                    (play_actions margin_engine (margin_game ''black'' 9) [0]) 98))
       = (fst (board (play_actions margin_engine (margin_game ''black'' 9) [0])), True)"
proof -
  let ?g = "play_actions margin_engine (margin_game ''black'' 9) [0]"
  have h1: "1 \<le> bsize margin_engine (board ?g)" by code_simp
  have h2: "int (bsize margin_engine (board ?g)) ^ 2 + 1 < 83" by code_simp
  have h3: "int (bsize margin_engine (board ?g)) ^ 2 + 1 < 98" by code_simp
  have nd: "\<not> done_flag ?g" by code_simp
  have v: "bsize margin_engine (board ?g) = 9" by code_simp
  have w: "ij_to_coord margin_engine (board ?g) 9 2 = 3"
    "ij_to_coord margin_engine (board ?g) 10 8 = - 2"
    by code_simp+
  have p: "play margin_engine (board ?g) 3 (player_color ?g) = None"
    "play margin_engine (board ?g) (- 2) (player_color ?g) = Some (fst (board ?g), True)"
    by code_simp+
  have st: "fst (play_action margin_engine ?g 98)
              = Inr (state (play_actions margin_engine (margin_game ''black'' 9) [0, 98]), True)"
    by code_simp
  from out_of_range_action [OF h1 h2 nd]
  have a: "action_to_coord margin_engine (board ?g) 83 = Inr 3"
    "play_action margin_engine ?g 83 = (Inl IllegalMove, ?g)"
    by (simp_all add: v w p)
  from out_of_range_action [OF h1 h3 nd]
  have b: "action_to_coord margin_engine (board ?g) 98 = Inr (- 2)"
    "board (snd (play_action margin_engine ?g 98)) = (fst (board ?g), True)"
    by (simp_all add: v w p)
  show ?thesis using h1 h2 nd a b st by simp
qed

text \<open>
  C3, as the claim states it, fails. A game of size 9 on the second engine, after a
  black stone on the point 0; 83 and 98 are above \<open>size\<^sup>2 + 1 = 82\<close>. For 83 the codec
  raises nothing, it returns the coordinate that the engine gives for row 9 and
  column 2, and the exception that \<open>play_action\<close> raises is the \<open>IllegalMove\<close> of the
  engine, which has been called. For 98 the codec returns the coordinate of row 10 and
  column 8, which is the resign sentinel; the engine accepts it, \<open>play_action\<close> raises
  nothing and returns \<open>done = True\<close>, and the board and the history buffer have changed.
\<close>

theorem out_of_range_action_counterexample:
  "int (bsize margin_engine
          (board (play_actions margin_engine (margin_game ''black'' 9) [0]))) ^ 2 + 1 < 83
   \<and> action_to_coord margin_engine
         (board (play_actions margin_engine (margin_game ''black'' 9) [0])) 83
       = Inr (ij_to_coord margin_engine
                (board (play_actions margin_engine (margin_game ''black'' 9) [0])) 9 2)
   \<and> fst (play_action margin_engine
              (play_actions margin_engine (margin_game ''black'' 9) [0]) 83)
       = Inl IllegalMove
   \<and> action_to_coord margin_engine
         (board (play_actions margin_engine (margin_game ''black'' 9) [0])) 98
       = Inr (RESIGN_COORD margin_engine)
   \<and> fst (play_action margin_engine
              (play_actions margin_engine (margin_game ''black'' 9) [0]) 98)
       = Inr (state (play_actions margin_engine (margin_game ''black'' 9) [0, 98]), True)
   \<and> board (play_actions margin_engine (margin_game ''black'' 9) [0, 98])
       \<noteq> board (play_actions margin_engine (margin_game ''black'' 9) [0])
   \<and> history (play_actions margin_engine (margin_game ''black'' 9) [0, 98])
       \<noteq> history (play_actions margin_engine (margin_game ''black'' 9) [0])"
  by code_simp

subsection \<open>Shapes and planes of arrays\<close>

lemma shape3_np_full: "shape3 n m d (np_full n m d v)"
  by (simp add: shape3_def np_full_def)

lemma shape3_np_zeros: "shape3 n m d (np_zeros n m d)"
  by (simp add: np_zeros_def shape3_np_full)

lemma shape3_row:
  assumes "shape3 n m d a" "i < n"
  shows "length a = n" "length (a ! i) = m"
  using assms by (simp_all add: shape3_def)

lemma shape3_nth:
  assumes "shape3 n m d a" "i < n" "j < m"
  shows "length a = n" "length (a ! i) = m" "length (a ! i ! j) = d"
proof -
  show "length a = n" "length (a ! i) = m" using assms by (simp_all add: shape3_def)
  have "a ! i \<in> set a" using assms by (simp add: shape3_def)
  moreover have "a ! i ! j \<in> set (a ! i)" using assms by (simp add: shape3_def)
  ultimately show "length (a ! i ! j) = d" using assms(1) by (simp add: shape3_def)
qed

lemma shape3_plane_at: "shape3 n m d a \<Longrightarrow> shape2 n m (plane_at k a)"
  by (auto simp: shape3_def shape2_def plane_at_def)

lemma length_roll1: "length (roll1 xs) = length xs"
  by (cases xs rule: rev_cases) (simp_all add: roll1_def)

lemma roll1_nth_Suc: "Suc k < length xs \<Longrightarrow> roll1 xs ! Suc k = xs ! k"
  by (cases xs rule: rev_cases) (simp_all add: roll1_def nth_append)

lemma shape3_np_roll_last: "shape3 n m d a \<Longrightarrow> shape3 n m d (np_roll_last a)"
  by (auto simp: shape3_def np_roll_last_def length_roll1)

lemma shape3_assign_plane0:
  assumes "shape3 n m d a"
  shows "shape3 n m d (assign_plane0 a p)"
proof -
  have "length (a ! i) = m" if "i < length a" for i
    using shape3_row(2) [OF assms, of i] that assms by (simp add: shape3_def)
  moreover have "length (a ! i ! j) = d" if "i < length a" "j < m" for i j
    using shape3_nth(3) [OF assms, of i j] that assms by (simp add: shape3_def)
  ultimately show ?thesis
    using assms by (auto simp: shape3_def assign_plane0_def)
qed

lemma shape3_np_concatenate_last:
  assumes "shape3 n m d a" "shape3 n m d' b"
  shows "shape3 n m (d + d') (np_concatenate_last a b)"
  using assms
  by (auto simp: shape3_def np_concatenate_last_def dest!: set_zip_leftD set_zip_rightD
      elim!: in_set_zipE)

lemma plane_eqI:
  assumes "length p = length q"
    and "\<And>i. i < length p \<Longrightarrow> length (p ! i) = length (q ! i)"
    and "\<And>i j. i < length p \<Longrightarrow> j < length (p ! i) \<Longrightarrow> p ! i ! j = q ! i ! j"
  shows "p = q"
  using assms by (auto intro!: nth_equalityI)

lemma plane_at_nth:
  "i < length a \<Longrightarrow> j < length (a ! i) \<Longrightarrow> plane_at k a ! i ! j = a ! i ! j ! k"
  by (simp add: plane_at_def)

lemma length_plane_at: "length (plane_at k a) = length a"
  "i < length a \<Longrightarrow> length (plane_at k a ! i) = length (a ! i)"
  by (simp_all add: plane_at_def)

lemma np_concatenate_last_nth:
  assumes "shape3 n m d a" "shape3 n m d' b" "i < n" "j < m"
  shows "np_concatenate_last a b ! i ! j = a ! i ! j @ b ! i ! j"
  using assms by (simp add: np_concatenate_last_def shape3_def)

lemma plane_at_concatenate_left:
  assumes a: "shape3 n m d a" and b: "shape3 n m d' b" and k: "k < d"
  shows "plane_at k (np_concatenate_last a b) = plane_at k a"
proof (rule plane_eqI)
  note c = shape3_np_concatenate_last [OF a b]
  show "length (plane_at k (np_concatenate_last a b)) = length (plane_at k a)"
    using c a by (simp add: length_plane_at shape3_def)
  fix i assume "i < length (plane_at k (np_concatenate_last a b))"
  then have i: "i < n" using c by (simp add: length_plane_at shape3_def)
  show "length (plane_at k (np_concatenate_last a b) ! i) = length (plane_at k a ! i)"
    using i shape3_row [OF c i] shape3_row [OF a i] by (simp add: length_plane_at)
  fix j assume "j < length (plane_at k (np_concatenate_last a b) ! i)"
  then have j: "j < m" using i shape3_row [OF c i] by (simp add: length_plane_at)
  show "plane_at k (np_concatenate_last a b) ! i ! j = plane_at k a ! i ! j"
    using i j k shape3_nth [OF c i j] shape3_nth [OF a i j]
      np_concatenate_last_nth [OF a b i j]
    by (simp add: plane_at_nth nth_append)
qed

lemma plane_at_concatenate_right:
  assumes a: "shape3 n m d a" and b: "shape3 n m d' b" and k: "k < d'"
  shows "plane_at (d + k) (np_concatenate_last a b) = plane_at k b"
proof (rule plane_eqI)
  note c = shape3_np_concatenate_last [OF a b]
  show "length (plane_at (d + k) (np_concatenate_last a b)) = length (plane_at k b)"
    using c b by (simp add: length_plane_at shape3_def)
  fix i assume "i < length (plane_at (d + k) (np_concatenate_last a b))"
  then have i: "i < n" using c by (simp add: length_plane_at shape3_def)
  show "length (plane_at (d + k) (np_concatenate_last a b) ! i) = length (plane_at k b ! i)"
    using i shape3_row [OF c i] shape3_row [OF b i] by (simp add: length_plane_at)
  fix j assume "j < length (plane_at (d + k) (np_concatenate_last a b) ! i)"
  then have j: "j < m" using i shape3_row [OF c i] by (simp add: length_plane_at)
  show "plane_at (d + k) (np_concatenate_last a b) ! i ! j = plane_at k b ! i ! j"
    using i j k shape3_nth [OF c i j] shape3_nth [OF a i j] shape3_nth [OF b i j]
      np_concatenate_last_nth [OF a b i j]
    by (simp add: plane_at_nth nth_append)
qed

lemma plane_at_np_full: "k < d \<Longrightarrow> plane_at k (np_full n m d v) = replicate n (replicate m v)"
  by (simp add: plane_at_def np_full_def)

lemma assign_roll_nth:
  assumes a: "shape3 n m d a" and i: "i < n" and j: "j < m"
  shows "assign_plane0 (np_roll_last a) p ! i ! j = (roll1 (a ! i ! j))[0 := int8 (p ! i ! j)]"
  using shape3_nth [OF shape3_np_roll_last [OF a] i j] shape3_nth [OF a i j] i j
  by (simp add: assign_plane0_def np_roll_last_def)

lemma plane_at_rotated_Suc:
  assumes a: "shape3 n m d a" and k: "Suc k < d"
  shows "plane_at (Suc k) (assign_plane0 (np_roll_last a) p) = plane_at k a"
proof (rule plane_eqI)
  note c = shape3_assign_plane0 [OF shape3_np_roll_last [OF a], of p]
  show "length (plane_at (Suc k) (assign_plane0 (np_roll_last a) p)) = length (plane_at k a)"
    using c a by (simp add: length_plane_at shape3_def)
  fix i assume "i < length (plane_at (Suc k) (assign_plane0 (np_roll_last a) p))"
  then have i: "i < n" using c by (simp add: length_plane_at shape3_def)
  show "length (plane_at (Suc k) (assign_plane0 (np_roll_last a) p) ! i)
          = length (plane_at k a ! i)"
    using i shape3_row [OF c i] shape3_row [OF a i] by (simp add: length_plane_at)
  fix j assume "j < length (plane_at (Suc k) (assign_plane0 (np_roll_last a) p) ! i)"
  then have j: "j < m" using i shape3_row [OF c i] by (simp add: length_plane_at)
  show "plane_at (Suc k) (assign_plane0 (np_roll_last a) p) ! i ! j = plane_at k a ! i ! j"
    using i j k shape3_nth [OF c i j] shape3_nth [OF a i j] assign_roll_nth [OF a i j, of p]
    by (simp add: plane_at_nth roll1_nth_Suc)
qed

lemma int8_id: "- 128 \<le> v \<Longrightarrow> v \<le> 127 \<Longrightarrow> int8 v = v"
  by (simp add: int8_def)

lemma map_int8_id:
  assumes "\<forall>row \<in> set p. \<forall>v \<in> set row. - 128 \<le> v \<and> v \<le> 127"
  shows "map (map int8) p = p"
  using assms by (auto intro!: map_idI simp: int8_id)

lemma plane_at_rotated_0:
  assumes a: "shape3 n m d a" and d: "0 < d" and p: "shape2 n m p"
  shows "plane_at 0 (assign_plane0 (np_roll_last a) p) = map (map int8) p"
proof (rule plane_eqI)
  note c = shape3_assign_plane0 [OF shape3_np_roll_last [OF a], of p]
  show "length (plane_at 0 (assign_plane0 (np_roll_last a) p)) = length (map (map int8) p)"
    using c p by (simp add: length_plane_at shape3_def shape2_def)
  fix i assume "i < length (plane_at 0 (assign_plane0 (np_roll_last a) p))"
  then have i: "i < n" using c by (simp add: length_plane_at shape3_def)
  have pi: "i < length p" "length (p ! i) = m" using i p by (simp_all add: shape2_def)
  show "length (plane_at 0 (assign_plane0 (np_roll_last a) p) ! i)
          = length (map (map int8) p ! i)"
    using i pi shape3_row [OF c i] by (simp add: length_plane_at)
  fix j assume "j < length (plane_at 0 (assign_plane0 (np_roll_last a) p) ! i)"
  then have j: "j < m" using i shape3_row [OF c i] by (simp add: length_plane_at)
  show "plane_at 0 (assign_plane0 (np_roll_last a) p) ! i ! j = map (map int8) p ! i ! j"
    using i j d pi shape3_nth [OF c i j] shape3_nth [OF a i j]
      assign_roll_nth [OF a i j, of p]
    by (simp add: plane_at_nth length_roll1)
qed

lemma obj_format_state_new:
  assumes "fresh_store s" and "arrays s history_ref = Some h"
  shows "obj_format_state s history_ref c n
           = Some (Suc (next_ref s),
                   s\<lparr>arrays := (arrays s)
                        (next_ref s \<mapsto> np_full n n 1 (stone_val c - 1),
                         Suc (next_ref s) \<mapsto> format_state h c n),
                     next_ref := Suc (Suc (next_ref s))\<rparr>)"
proof -
  have "history_ref < next_ref s"
    using assms by (auto simp: fresh_store_def not_le [symmetric])
  then show ?thesis
    using assms(2)
    by (simp add: obj_format_state_def new_array_def Let_def format_state_def)
qed

text \<open>
  C7. For a history of shape \<open>(n, n, 2 * HISTORY)\<close> and either colour, the array that
  \<open>_format_state\<close> returns has shape \<open>(n, n, 2 * HISTORY + 1)\<close>; its planes 0 to
  \<open>2 * HISTORY - 1\<close> are the planes of the history, and its last plane holds in every
  cell the code of the colour, 0 for black and 1 for white. In the store, the array
  returned is a new object, and every instance, board and array that was there is as
  before.
\<close>

theorem format_state_planes:
  assumes "shape3 n n (2 * HISTORY) h"
  shows "shape3 n n (2 * HISTORY + 1) (format_state h c n)
         \<and> (\<forall>k < 2 * HISTORY. plane_at k (format_state h c n) = plane_at k h)
         \<and> plane_at (2 * HISTORY) (format_state h c n)
             = replicate n (replicate n (case c of BLACK \<Rightarrow> 0 | WHITE \<Rightarrow> 1))
         \<and> (fresh_store s \<and> arrays s history_ref = Some h \<longrightarrow>
              (case obj_format_state s history_ref c n of
                 None \<Rightarrow> False
               | Some (final_state, s') \<Rightarrow>
                   arrays s' final_state = Some (format_state h c n)
                   \<and> next_ref s \<le> final_state
                   \<and> games s' = games s \<and> boards s' = boards s
                   \<and> (\<forall>x < next_ref s. arrays s' x = arrays s x)))"
proof -
  let ?cp = "np_full n n 1 (stone_val c - 1)"
  have cp: "shape3 n n 1 ?cp" by (rule shape3_np_full)
  have f: "format_state h c n = np_concatenate_last h ?cp"
    by (simp add: format_state_def Let_def)
  have v: "stone_val c - 1 = (case c of BLACK \<Rightarrow> 0 | WHITE \<Rightarrow> 1)"
    by (cases c) simp_all
  have "shape3 n n (2 * HISTORY + 1) (format_state h c n)"
    unfolding f by (rule shape3_np_concatenate_last [OF assms cp])
  moreover have "\<forall>k < 2 * HISTORY. plane_at k (format_state h c n) = plane_at k h"
    unfolding f using plane_at_concatenate_left [OF assms cp] by blast
  moreover have "plane_at (2 * HISTORY) (format_state h c n)
                   = replicate n (replicate n (case c of BLACK \<Rightarrow> 0 | WHITE \<Rightarrow> 1))"
    unfolding f using plane_at_concatenate_right [OF assms cp, of 0]
    by (simp add: plane_at_np_full v)
  moreover have "case obj_format_state s history_ref c n of
                   None \<Rightarrow> False
                 | Some (final_state, s') \<Rightarrow>
                     arrays s' final_state = Some (format_state h c n)
                     \<and> next_ref s \<le> final_state
                     \<and> games s' = games s \<and> boards s' = boards s
                     \<and> (\<forall>x < next_ref s. arrays s' x = arrays s x)"
    if "fresh_store s" "arrays s history_ref = Some h"
    by (simp add: obj_format_state_new [OF that])
  ultimately show ?thesis by blast
qed

theorem format_state_planes_witness:
  "shape3 2 2 (2 * HISTORY) (history (play_actions stub_engine (new_game ''black'' 2) [0]))
   \<and> shape3 2 2 (2 * HISTORY + 1)
       (format_state (history (play_actions stub_engine (new_game ''black'' 2) [0])) WHITE 2)
   \<and> plane_at 0
       (format_state (history (play_actions stub_engine (new_game ''black'' 2) [0])) WHITE 2)
       = [[1, 0], [0, 0]]
   \<and> plane_at (2 * HISTORY)
       (format_state (history (play_actions stub_engine (new_game ''black'' 2) [0])) WHITE 2)
       = [[1, 1], [1, 1]]
   \<and> shape3 2 2 (2 * HISTORY) (np_zeros 2 2 16)
   \<and> fresh_store demo_store \<and> arrays demo_store 2 = Some (np_zeros 2 2 16)
   \<and> (case obj_format_state demo_store 2 BLACK 2 of
         None \<Rightarrow> False
       | Some (final_state, s') \<Rightarrow>
           arrays s' final_state = Some (np_zeros 2 2 17)
           \<and> next_ref demo_store \<le> final_state
           \<and> games s' = games demo_store \<and> boards s' = boards demo_store
           \<and> (\<forall>x < next_ref demo_store. arrays s' x = arrays demo_store x))"
proof -
  let ?h = "history (play_actions stub_engine (new_game ''black'' 2) [0])"
  have s: "shape3 2 2 (2 * HISTORY) ?h" by code_simp
  have p: "plane_at 0 ?h = [[1, 0], [0, 0]]" by code_simp
  have k: "0 < 2 * HISTORY" by (simp add: HISTORY_def)
  have r: "replicate 2 (replicate 2 (case WHITE of BLACK \<Rightarrow> 0 | WHITE \<Rightarrow> 1))
             = [[1, 1], [1, 1::int]]"
    by code_simp
  have z: "shape3 2 2 (2 * HISTORY) (np_zeros 2 2 16)" by code_simp
  have fr: "fresh_store demo_store"
    by (simp add: demo_store_def obj_init_def colormap_def empty_store_def new_board_def
        new_array_def Let_def fresh_store_def)
  have ar: "arrays demo_store 2 = Some (np_zeros 2 2 16)" by code_simp
  have fz: "format_state (np_zeros 2 2 16) BLACK 2 = np_zeros 2 2 17" by code_simp
  let ?f = "format_state ?h WHITE 2"
  from format_state_planes [OF s, of WHITE demo_store 0]
  have a: "shape3 2 2 (2 * HISTORY + 1) ?f"
    "\<forall>k < 2 * HISTORY. plane_at k ?f = plane_at k ?h"
    "plane_at (2 * HISTORY) ?f
       = replicate 2 (replicate 2 (case WHITE of BLACK \<Rightarrow> 0 | WHITE \<Rightarrow> 1))"
    by blast+
  from format_state_planes [OF z, of BLACK demo_store 2] fr ar
  have b: "case obj_format_state demo_store 2 BLACK 2 of
             None \<Rightarrow> False
           | Some (final_state, s') \<Rightarrow>
               arrays s' final_state = Some (format_state (np_zeros 2 2 16) BLACK 2)
               \<and> next_ref demo_store \<le> final_state
               \<and> games s' = games demo_store \<and> boards s' = boards demo_store
               \<and> (\<forall>x < next_ref demo_store. arrays s' x = arrays demo_store x)"
    by blast
  have "plane_at 0 ?f = [[1, 0], [0, 0]]" using a(2) k p by simp
  moreover have "plane_at (2 * HISTORY) ?f = [[1, 1], [1, 1]]" using a(3) r by simp
  ultimately show ?thesis using s a(1) z fr ar b unfolding fz by simp
qed

subsection \<open>The history buffer\<close>

lemma reset_fields:
  "reset e g =
     (np_zeros (board_size g) (board_size g) (HISTORY * 2 + 1),
      g\<lparr>komi := calc_komi (board_size g), board := CreateBoard e (board_size g),
        done_flag := False,
        history := np_zeros (board_size g) (board_size g) (HISTORY * 2),
        state := np_zeros (board_size g) (board_size g) (HISTORY * 2 + 1)\<rparr>)"
  by (simp add: reset_def Let_def)

lemma act_error_unchanged: "act e g a = (Some err, g') \<Longrightarrow> g' = g"
  by (auto simp: act_def Let_def split: sum.splits option.splits)

lemma play_action_error_unchanged: "play_action e g a = (Inl err, g') \<Longrightarrow> g' = g"
  by (auto simp: play_action_def Let_def split: if_splits prod.splits option.splits
      dest: act_error_unchanged)

lemma play_action_history:
  assumes "play_action e g a = (r, g')"
  shows "board_size g' = board_size g
         \<and> (history g' = history g
            \<or> (\<exists>p. history g' = assign_plane0 (np_roll_last (history g)) p))"
proof (cases r)
  case (Inl err)
  then show ?thesis using play_action_error_unchanged assms by fastforce
next
  case (Inr v)
  show ?thesis
  proof (cases "done_flag g")
    case True
    then show ?thesis using assms by (auto simp: play_action_done)
  next
    case False
    then show ?thesis using play_action_success [of g e a v g'] assms Inr by auto
  qed
qed

lemma reachable_history_shape:
  "reachable e g \<Longrightarrow> shape3 (board_size g) (board_size g) (2 * HISTORY) (history g)"
proof (induction rule: reachable.induct)
  case (init color n g)
  then show ?case
    by (auto simp: GoGame_init_def reset_fields shape3_np_zeros mult.commute
        split: option.splits)
next
  case (step g a r g')
  then show ?case
    using play_action_history [of e g a r g']
    by (auto intro!: shape3_assign_plane0 shape3_np_roll_last)
next
  case (again g s g')
  then show ?case
    by (auto simp: reset_fields shape3_np_zeros mult.commute)
qed

text \<open>
  C6. In every instance that the constructor, \<open>reset\<close> and \<open>play_action\<close> can produce,
  the history has the shape \<open>(size, size, 2 * HISTORY)\<close>: \<open>2 * HISTORY = 16\<close> planes of
  \<open>size\<close> by \<open>size\<close>. When the game is not over and \<open>play_action\<close> returns, the history
  has that shape still and each plane \<open>k + 1\<close> of the new history is plane \<open>k\<close> of the old
  one, so that the old last plane is gone. Plane 0 is then the plane of the mover's
  colour in the engine's encoding of the board after the move, cast to \<open>int8\<close>, provided
  the engine gives that plane the shape of the board; it is that plane itself when the
  values of the plane lie between \<open>-128\<close> and 127, as the 0 and 1 of an occupancy
  plane do.
\<close>

theorem history_rotation:
  assumes "reachable e g"
  shows "shape3 (board_size g) (board_size g) (2 * HISTORY) (history g)
         \<and> (\<not> done_flag g \<and> play_action e g a = (Inr r, g') \<longrightarrow>
              shape3 (board_size g) (board_size g) (2 * HISTORY) (history g')
              \<and> (\<forall>k. Suc k < 2 * HISTORY \<longrightarrow>
                    plane_at (Suc k) (history g') = plane_at k (history g))
              \<and> (shape2 (board_size g) (board_size g)
                    (encode e (board g') ! nat (stone_val (player_color g) - 1)) \<longrightarrow>
                  plane_at 0 (history g')
                    = map (map int8)
                        (encode e (board g') ! nat (stone_val (player_color g) - 1)))
              \<and> (shape2 (board_size g) (board_size g)
                    (encode e (board g') ! nat (stone_val (player_color g) - 1))
                  \<and> (\<forall>row \<in> set (encode e (board g') ! nat (stone_val (player_color g) - 1)).
                        \<forall>v \<in> set row. - 128 \<le> v \<and> v \<le> 127) \<longrightarrow>
                  plane_at 0 (history g')
                    = encode e (board g') ! nat (stone_val (player_color g) - 1)))"
proof -
  note s = reachable_history_shape [OF assms]
  have pos: "0 < 2 * HISTORY" by (simp add: HISTORY_def)
  {
    assume nd: "\<not> done_flag g" and pa: "play_action e g a = (Inr r, g')"
    define P where "P = encode e (board g') ! nat (stone_val (player_color g) - 1)"
    from play_action_success [OF nd pa] obtain c b' where
      b': "board g' = b'" and
      h0: "history g' = assign_plane0 (np_roll_last (history g))
                          (encode e b' ! nat (stone_val (player_color g) - 1))"
      by auto
    have h': "history g' = assign_plane0 (np_roll_last (history g)) P"
      using h0 b' by (simp add: P_def)
    have "shape3 (board_size g) (board_size g) (2 * HISTORY) (history g')"
      unfolding h' by (intro shape3_assign_plane0 shape3_np_roll_last s)
    moreover have "\<forall>k. Suc k < 2 * HISTORY \<longrightarrow>
                     plane_at (Suc k) (history g') = plane_at k (history g)"
      unfolding h' using plane_at_rotated_Suc [OF s] by blast
    moreover have cast: "shape2 (board_size g) (board_size g) P \<longrightarrow>
                   plane_at 0 (history g') = map (map int8) P"
      unfolding h' using plane_at_rotated_0 [OF s pos] by blast
    moreover have "shape2 (board_size g) (board_size g) P
                   \<and> (\<forall>row \<in> set P. \<forall>v \<in> set row. - 128 \<le> v \<and> v \<le> 127) \<longrightarrow>
                   plane_at 0 (history g') = P"
      using cast map_int8_id [of P] by simp
    ultimately have "shape3 (board_size g) (board_size g) (2 * HISTORY) (history g')
              \<and> (\<forall>k. Suc k < 2 * HISTORY \<longrightarrow>
                    plane_at (Suc k) (history g') = plane_at k (history g))
              \<and> (shape2 (board_size g) (board_size g) P \<longrightarrow>
                  plane_at 0 (history g') = map (map int8) P)
              \<and> (shape2 (board_size g) (board_size g) P
                  \<and> (\<forall>row \<in> set P. \<forall>v \<in> set row. - 128 \<le> v \<and> v \<le> 127) \<longrightarrow>
                  plane_at 0 (history g') = P)"
      by blast
  }
  then show ?thesis using s by blast
qed

theorem history_rotation_witness:
  "reachable stub_engine (play_actions stub_engine (new_game ''black'' 2) [0])
   \<and> \<not> done_flag (play_actions stub_engine (new_game ''black'' 2) [0])
   \<and> play_action stub_engine (play_actions stub_engine (new_game ''black'' 2) [0]) 3
       = (Inr (state (play_actions stub_engine (new_game ''black'' 2) [0, 3]), False),
          play_actions stub_engine (new_game ''black'' 2) [0, 3])
   \<and> shape3 2 2 16 (history (play_actions stub_engine (new_game ''black'' 2) [0, 3]))
   \<and> plane_at 0 (history (play_actions stub_engine (new_game ''black'' 2) [0, 3]))
       = [[0, 0], [0, 1]]
   \<and> plane_at 1 (history (play_actions stub_engine (new_game ''black'' 2) [0, 3]))
       = [[1, 0], [0, 0]]"
proof -
  let ?s = "new_game ''black'' 2"
  let ?g = "play_actions stub_engine ?s [0]"
  let ?g' = "play_actions stub_engine ?s [0, 3]"
  have i: "GoGame_init stub_engine ''black'' 2 = Inr ?s" by code_simp
  have p0: "play_action stub_engine ?s 0 = (fst (play_action stub_engine ?s 0), ?g)"
    by (simp add: play_actions_def)
  have r: "reachable stub_engine ?g"
    by (rule reachable.step [OF reachable.init [OF i] p0])
  have nd: "\<not> done_flag ?g" by code_simp
  have pa: "play_action stub_engine ?g 3 = (Inr (state ?g', False), ?g')" by code_simp
  have v: "board_size ?g = 2" "player_color ?g = WHITE"
    "encode stub_engine (board ?g') ! nat (stone_val WHITE - 1) = [[0, 0], [0, 1]]"
    "shape2 2 2 [[0, 0], [0, 1]]" "plane_at 0 (history ?g) = [[1, 0], [0, 0]]"
    "2 * HISTORY = 16"
    "\<forall>row \<in> set [[0, 0], [0, 1::int]]. \<forall>v \<in> set row. - 128 \<le> v \<and> v \<le> 127"
    by code_simp+
  show ?thesis
    using history_rotation [OF r, of 3 "(state ?g', False)" ?g'] r nd pa v
    by (simp add: int8_def)
qed

subsection \<open>Copies of instances\<close>

lemma view_Some_iff:
  "view s r = Some g \<longleftrightarrow>
     (\<exists>ob b h st. games s r = Some ob \<and> boards s (o_board ob) = Some b
        \<and> arrays s (o_history ob) = Some h \<and> arrays s (o_state ob) = Some st
        \<and> g = \<lparr>board_size = o_board_size ob, player_color = o_player_color ob,
                komi = o_komi ob, board = b, done_flag = o_done ob,
                history = h, state = st\<rparr>)"
  by (auto simp: view_def split: option.splits)

lemma fresh_lt:
  assumes "fresh_store s"
  shows "games s x = Some ob \<Longrightarrow> x < next_ref s"
    and "boards s x = Some b \<Longrightarrow> x < next_ref s"
    and "arrays s x = Some a \<Longrightarrow> x < next_ref s"
  using assms by (auto simp: fresh_store_def not_le [symmetric])

lemma separate_sym: "separate s r c \<Longrightarrow> separate s c r"
  by (auto simp: separate_def split: option.splits)

lemma obj_reset_ok:
  assumes F: "fresh_store s" and S: "separate s r c"
    and Vr: "view s r = Some g" and Vc: "view s c = Some k"
  shows "\<exists>sr s'. obj_reset e s r = Some (sr, s') \<and> fresh_store s' \<and> separate s' r c
           \<and> view s' r = Some (snd (reset e g)) \<and> view s' c = Some k"
proof -
  from Vr obtain ob b h st where
    ob: "games s r = Some ob" "boards s (o_board ob) = Some b"
      "arrays s (o_history ob) = Some h" "arrays s (o_state ob) = Some st"
    and g: "g = \<lparr>board_size = o_board_size ob, player_color = o_player_color ob,
                komi = o_komi ob, board = b, done_flag = o_done ob,
                history = h, state = st\<rparr>"
    unfolding view_Some_iff by blast
  from Vc obtain oc b2 h2 st2 where
    oc: "games s c = Some oc" "boards s (o_board oc) = Some b2"
      "arrays s (o_history oc) = Some h2" "arrays s (o_state oc) = Some st2"
    and k: "k = \<lparr>board_size = o_board_size oc, player_color = o_player_color oc,
                komi = o_komi oc, board = b2, done_flag = o_done oc,
                history = h2, state = st2\<rparr>"
    unfolding view_Some_iff by blast
  have ne: "r \<noteq> c" using S by (simp add: separate_def)
  have lt: "o_board oc < next_ref s" "o_history oc < next_ref s" "o_state oc < next_ref s"
    "r < next_ref s" "c < next_ref s"
    using fresh_lt [OF F] ob oc by blast+
  show ?thesis
    using ob oc ne lt F unfolding g k
    by (simp add: obj_reset_def set_attr_def new_board_def new_array_def Let_def
        fresh_store_def separate_def view_def reset_fields)
qed

lemma obj_play_action_ok:
  assumes F: "fresh_store s" and S: "separate s r c"
    and Vr: "view s r = Some g" and Vc: "view s c = Some k"
  shows "\<exists>res s'. obj_play_action e inplace s r a = Some (res, s') \<and> fresh_store s'
           \<and> separate s' r c
           \<and> view s' r = Some (snd (play_action e g a)) \<and> view s' c = Some k
           \<and> (case res of
                 Inl err \<Rightarrow> fst (play_action e g a) = Inl err
               | Inr (sr, d) \<Rightarrow>
                   (\<exists>t. arrays s' sr = Some t \<and> fst (play_action e g a) = Inr (t, d)))"
proof -
  from Vr obtain ob b h st where
    ob: "games s r = Some ob" "boards s (o_board ob) = Some b"
      "arrays s (o_history ob) = Some h" "arrays s (o_state ob) = Some st"
    and g: "g = \<lparr>board_size = o_board_size ob, player_color = o_player_color ob,
                komi = o_komi ob, board = b, done_flag = o_done ob,
                history = h, state = st\<rparr>"
    unfolding view_Some_iff by blast
  from Vc obtain oc b2 h2 st2 where
    oc: "games s c = Some oc" "boards s (o_board oc) = Some b2"
      "arrays s (o_history oc) = Some h2" "arrays s (o_state oc) = Some st2"
    and k: "k = \<lparr>board_size = o_board_size oc, player_color = o_player_color oc,
                komi = o_komi oc, board = b2, done_flag = o_done oc,
                history = h2, state = st2\<rparr>"
    unfolding view_Some_iff by blast
  have ne: "r \<noteq> c" "o_board ob \<noteq> o_board oc"
    "o_history ob \<noteq> o_history oc" "o_history ob \<noteq> o_state oc"
    "o_state ob \<noteq> o_history oc" "o_state ob \<noteq> o_state oc"
    using S ob oc by (simp_all add: separate_def)
  have lt: "o_board oc < next_ref s" "o_history oc < next_ref s" "o_state oc < next_ref s"
    "o_board ob < next_ref s" "o_history ob < next_ref s" "o_state ob < next_ref s"
    "r < next_ref s" "c < next_ref s"
    using fresh_lt [OF F] ob oc by blast+
  show ?thesis
  proof (cases "o_done ob")
    case True
    then show ?thesis
      using ob oc ne lt F unfolding g k
      by (simp add: obj_play_action_def obj_format_state_def format_state_def play_action_def set_attr_def new_array_def Let_def
          fresh_store_def separate_def view_def)
  next
    case nd: False
    show ?thesis
    proof (cases "action_to_coord e b a")
      case (Inl err)
      then show ?thesis
        using nd ob oc ne lt F S unfolding g k
        by (simp add: obj_play_action_def obj_format_state_def format_state_def obj_act_def play_action_def act_def view_def)
    next
      case (Inr co)
      show ?thesis
      proof (cases "play e b co (o_player_color ob)")
        case None
        then show ?thesis
          using Inr nd ob oc ne lt F S unfolding g k
          by (simp add: obj_play_action_def obj_format_state_def format_state_def obj_act_def play_action_def act_def view_def)
      next
        case (Some b')
        show ?thesis
        proof (cases inplace)
          case True
          then show ?thesis
            using Some Inr nd ob oc ne lt F unfolding g k
            by (simp add: obj_play_action_def obj_format_state_def format_state_def obj_act_def play_action_def act_def
                set_attr_def new_array_def Let_def fresh_store_def separate_def view_def)
        next
          case False
          then show ?thesis
            using Some Inr nd ob oc ne lt F unfolding g k
            by (simp add: obj_play_action_def obj_format_state_def format_state_def obj_act_def play_action_def act_def
                set_attr_def new_array_def new_board_def Let_def fresh_store_def
                separate_def view_def)
        qed
      qed
    qed
  qed
qed

lemma obj_call_ok:
  assumes "fresh_store s" and "separate s r c"
    and "view s r = Some g" and "view s c = Some k"
  shows "\<exists>s'. obj_call e inplace s r cl = Some s' \<and> fresh_store s' \<and> separate s' r c
           \<and> view s' r = Some (call_value e g cl) \<and> view s' c = Some k"
proof (cases cl)
  case (Step a)
  from obj_play_action_ok [OF assms, of e inplace a] obtain res s' where
    "obj_play_action e inplace s r a = Some (res, s')" "fresh_store s'" "separate s' r c"
    "view s' r = Some (snd (play_action e g a))" "view s' c = Some k"
    by blast
  then show ?thesis using Step by (simp add: obj_call_def call_value_def)
next
  case Reset
  from obj_reset_ok [OF assms, of e] obtain sr s' where
    "obj_reset e s r = Some (sr, s')" "fresh_store s'" "separate s' r c"
    "view s' r = Some (snd (reset e g))" "view s' c = Some k"
    by blast
  then show ?thesis using Reset by (simp add: obj_call_def call_value_def)
qed

lemma obj_calls_ok:
  assumes "fresh_store s" and "separate s r c"
    and "view s r = Some g" and "view s c = Some k"
    and "fst ` set cs \<subseteq> {r, c}"
  shows "\<exists>s'. obj_calls e inplace s cs = Some s'
           \<and> view s' r = Some (foldl (call_value e) g (calls_on r cs))
           \<and> view s' c = Some (foldl (call_value e) k (calls_on c cs))"
  using assms
proof (induction cs arbitrary: s g k)
  case Nil
  then show ?case by (simp add: calls_on_def)
next
  case (Cons x cs)
  obtain t cl where x: "x = (t, cl)" by (cases x)
  have ne: "r \<noteq> c" using Cons.prems(2) by (simp add: separate_def)
  have rest: "fst ` set cs \<subseteq> {r, c}" using Cons.prems(5) by simp
  have "t = r \<or> t = c" using Cons.prems(5) x by simp
  then show ?case
  proof
    assume t: "t = r"
    from obj_call_ok [OF Cons.prems(1-4), of e inplace cl] obtain s' where
      s': "obj_call e inplace s r cl = Some s'" "fresh_store s'" "separate s' r c"
      "view s' r = Some (call_value e g cl)" "view s' c = Some k"
      by blast
    from Cons.IH [OF s'(2-5) rest] show ?thesis
      using s'(1) x t ne by (simp add: calls_on_def)
  next
    assume t: "t = c"
    from obj_call_ok [OF Cons.prems(1) separate_sym [OF Cons.prems(2)] Cons.prems(4,3),
        of e inplace cl]
    obtain s' where
      s': "obj_call e inplace s c cl = Some s'" "fresh_store s'" "separate s' c r"
      "view s' c = Some (call_value e k cl)" "view s' r = Some g"
      by blast
    from Cons.IH [OF s'(2) separate_sym [OF s'(3)] s'(5,4) rest] show ?thesis
      using s'(1) x t ne by (simp add: calls_on_def)
  qed
qed

lemma obj_deepcopy_ok:
  assumes F: "fresh_store s" and Vr: "view s r = Some g"
  shows "\<exists>s1. obj_deepcopy e s r = Some (next_ref s, s1) \<and> fresh_store s1
           \<and> separate s1 r (next_ref s) \<and> view s1 r = Some g
           \<and> view s1 (next_ref s) = Some (g\<lparr>board := clone e (board g)\<rparr>)"
proof -
  from Vr obtain ob b h st where
    ob: "games s r = Some ob" "boards s (o_board ob) = Some b"
      "arrays s (o_history ob) = Some h" "arrays s (o_state ob) = Some st"
    and g: "g = \<lparr>board_size = o_board_size ob, player_color = o_player_color ob,
                komi = o_komi ob, board = b, done_flag = o_done ob,
                history = h, state = st\<rparr>"
    unfolding view_Some_iff by blast
  have lt: "o_board ob < next_ref s" "o_history ob < next_ref s" "o_state ob < next_ref s"
    "r < next_ref s"
    using fresh_lt [OF F] ob by blast+
  show ?thesis
  proof (cases "o_state ob = o_history ob")
    case True
    then show ?thesis
      using ob lt F unfolding g
      by (simp add: obj_deepcopy_def new_array_def new_board_def Let_def fresh_store_def
          separate_def view_def)
  next
    case False
    then show ?thesis
      using ob lt F unfolding g
      by (simp add: obj_deepcopy_def new_array_def new_board_def Let_def fresh_store_def
          separate_def view_def)
  qed
qed

text \<open>
  C9. In a store with no object beyond \<open>next_ref\<close>, \<open>__deepcopy__\<close> of an instance
  returns a new instance. Its board object is new and holds the engine's clone of the
  original's board, its \<open>history\<close> and \<open>state\<close> are new arrays, so that the two
  instances share no board and no array, and its other attributes have the original's
  values; the original is as before. After any calls of \<open>play_action\<close> and \<open>reset\<close> on
  the two instances, in any order, each instance is what its own calls alone make of
  it: the calls on the copy change no attribute of the original and the calls on the
  original none of the copy, whether the engine's \<open>play\<close> returns a new board or
  changes its board in place.
\<close>

theorem deepcopy_independent:
  assumes "fresh_store s" and "view s r = Some g"
  shows "(case obj_deepcopy e s r of
            None \<Rightarrow> False
          | Some (c, s1) \<Rightarrow>
              c \<noteq> r \<and> separate s1 r c \<and> view s1 r = Some g
              \<and> view s1 c = Some (g\<lparr>board := clone e (board g)\<rparr>)
              \<and> (\<forall>cs. fst ` set cs \<subseteq> {r, c} \<longrightarrow>
                    (case obj_calls e inplace s1 cs of
                       None \<Rightarrow> False
                     | Some s2 \<Rightarrow>
                         view s2 r = Some (foldl (call_value e) g (calls_on r cs))
                         \<and> view s2 c
                             = Some (foldl (call_value e) (g\<lparr>board := clone e (board g)\<rparr>)
                                       (calls_on c cs)))))"
proof -
  from obj_deepcopy_ok [OF assms, of e] obtain s1 where
    d: "obj_deepcopy e s r = Some (next_ref s, s1)" and
    s1: "fresh_store s1" "separate s1 r (next_ref s)" "view s1 r = Some g"
    "view s1 (next_ref s) = Some (g\<lparr>board := clone e (board g)\<rparr>)"
    by blast
  have ne: "next_ref s \<noteq> r" using s1(2) by (auto simp: separate_def)
  have "case obj_calls e inplace s1 cs of
          None \<Rightarrow> False
        | Some s2 \<Rightarrow>
            view s2 r = Some (foldl (call_value e) g (calls_on r cs))
            \<and> view s2 (next_ref s)
                = Some (foldl (call_value e) (g\<lparr>board := clone e (board g)\<rparr>)
                          (calls_on (next_ref s) cs))"
    if "fst ` set cs \<subseteq> {r, next_ref s}" for cs
    using obj_calls_ok [OF s1 that, of e inplace] by auto
  then show ?thesis using d s1 ne by simp
qed

theorem deepcopy_independent_witness:
  "fresh_store demo_store \<and> view demo_store 0 = Some (new_game ''black'' 2)
   \<and> (case obj_deepcopy stub_engine demo_store 0 of
         None \<Rightarrow> False
       | Some (c, s1) \<Rightarrow>
           c \<noteq> 0 \<and> separate s1 0 c \<and> view s1 0 = Some (new_game ''black'' 2)
           \<and> view s1 c = Some (new_game ''black'' 2)
           \<and> (case obj_calls stub_engine False s1 [(c, Step 0), (0, Step 3), (c, Step 4)] of
                 None \<Rightarrow> False
               | Some s2 \<Rightarrow>
                   view s2 0 = Some (play_actions stub_engine (new_game ''black'' 2) [3])
                   \<and> view s2 c
                       = Some (play_actions stub_engine (new_game ''black'' 2) [0, 4])))"
proof -
  let ?g = "new_game ''black'' 2"
  have h1: "fresh_store demo_store"
    by (simp add: demo_store_def obj_init_def colormap_def empty_store_def new_board_def
        new_array_def Let_def fresh_store_def)
  have h2: "view demo_store 0 = Some ?g" by code_simp
  have cl: "?g\<lparr>board := clone stub_engine (board ?g)\<rparr> = ?g"
    by (simp add: stub_engine_def)
  note t = deepcopy_independent [OF h1 h2, of stub_engine False, unfolded cl]
  obtain c s1 where d: "obj_deepcopy stub_engine demo_store 0 = Some (c, s1)"
    using t by (auto split: option.splits)
  from t d have c: "c \<noteq> 0" "separate s1 0 c" "view s1 0 = Some ?g" "view s1 c = Some ?g"
    and a: "\<And>cs. fst ` set cs \<subseteq> {0, c} \<Longrightarrow>
              (case obj_calls stub_engine False s1 cs of
                 None \<Rightarrow> False
               | Some s2 \<Rightarrow>
                   view s2 0 = Some (foldl (call_value stub_engine) ?g (calls_on 0 cs))
                   \<and> view s2 c = Some (foldl (call_value stub_engine) ?g (calls_on c cs)))"
    by simp_all
  have "case obj_calls stub_engine False s1 [(c, Step 0), (0, Step 3), (c, Step 4)] of
          None \<Rightarrow> False
        | Some s2 \<Rightarrow>
            view s2 0 = Some (play_actions stub_engine ?g [3])
            \<and> view s2 c = Some (play_actions stub_engine ?g [0, 4])"
  proof -
    have sub: "fst ` set [(c, Step 0), (0, Step 3), (c, Step 4)] \<subseteq> {0, c}" by simp
    have co: "calls_on 0 [(c, Step 0), (0, Step 3), (c, Step 4)] = [Step 3]"
      "calls_on c [(c, Step 0), (0, Step 3), (c, Step 4)] = [Step 0, Step 4]"
      using c(1) by (simp_all add: calls_on_def)
    have fl: "foldl (call_value stub_engine) ?g [Step 3] = play_actions stub_engine ?g [3]"
      "foldl (call_value stub_engine) ?g [Step 0, Step 4] = play_actions stub_engine ?g [0, 4]"
      by (simp_all add: call_value_def play_actions_def)
    show ?thesis using a [OF sub] unfolding co fl .
  qed
  then show ?thesis using h1 h2 d c by simp
qed

end
